theory Spec2Isabelle
  imports Main "HOL-Library.Sublist"
begin

section \<open>The branch analyzer of the git-helper skill (analyze\_branches.py)\<close>

text \<open>
  The script shells out to \<^verbatim>\<open>git\<close>, parses its line-oriented output, builds one
  record per branch, sorts and classifies the records and prints a report.
  Everything outside the script is a parameter of the model: the \<^verbatim>\<open>git\<close> binary, the
  wall clock, and the library parsers \<^verbatim>\<open>datetime.fromisoformat\<close>,
  \<^verbatim>\<open>datetime.isoformat\<close> and \<^verbatim>\<open>int\<close>.
  Python strings are modelled by \<^typ>\<open>string\<close>, one \<^typ>\<open>char\<close> per code point, so the
  model covers text whose code points are below 256.
\<close>

subsection \<open>String operations of Python used by the script\<close>

text \<open>\<^verbatim>\<open>str.isspace\<close> on one code point below 256.\<close>

definition isspace :: "char \<Rightarrow> bool" where
  "isspace c = ((of_char c :: nat) \<in> set [9, 10, 11, 12, 13, 28, 29, 30, 31, 32, 133, 160])"

text \<open>\<^verbatim>\<open>s.strip()\<close>: leading and trailing whitespace removed.\<close>

definition strip :: "string \<Rightarrow> string" where
  "strip s = rev (dropWhile isspace (rev (dropWhile isspace s)))"

text \<open>
  Splitting at every character that satisfies \<open>p\<close>, keeping empty pieces; the result is
  never empty (\<^verbatim>\<open>''.split('\n') == ['']\<close>).
\<close>

fun split_where :: "(char \<Rightarrow> bool) \<Rightarrow> string \<Rightarrow> string list" where
  "split_where p [] = [[]]"
| "split_where p (c # cs) =
     (if p c then [] # split_where p cs
      else (case split_where p cs of
              [] \<Rightarrow> [[c]]
            | piece # pieces \<Rightarrow> (c # piece) # pieces))"

text \<open>\<^verbatim>\<open>s.split(sep)\<close> for a separator of one character.\<close>

definition split_on :: "char \<Rightarrow> string \<Rightarrow> string list" where
  "split_on sep s = split_where (\<lambda>c. c = sep) s"

text \<open>\<^verbatim>\<open>s.split(sep, maxsplit)\<close>: at most \<open>maxsplit\<close> cuts, the rest stays whole.\<close>

fun split_max :: "char \<Rightarrow> nat \<Rightarrow> string \<Rightarrow> string list" where
  "split_max sep 0 s = [s]"
| "split_max sep (Suc n) [] = [[]]"
| "split_max sep (Suc n) (c # cs) =
     (if c = sep then [] # split_max sep n cs
      else (case split_max sep (Suc n) cs of
              [] \<Rightarrow> [[c]]
            | piece # pieces \<Rightarrow> (c # piece) # pieces))"

text \<open>The pieces of a split, put together again with the separator between them.\<close>

fun join_with :: "char \<Rightarrow> string list \<Rightarrow> string" where
  "join_with sep [] = []"
| "join_with sep [piece] = piece"
| "join_with sep (piece # rest) = piece @ sep # join_with sep rest"

text \<open>\<^verbatim>\<open>s.split()\<close>: the maximal runs of non-whitespace characters.\<close>

definition split_ws :: "string \<Rightarrow> string list" where
  "split_ws s = filter (\<lambda>piece. piece \<noteq> []) (split_where isspace s)"

text \<open>\<^verbatim>\<open>needle in hay\<close> on strings: \<open>needle\<close> occurs as a contiguous substring.\<close>

definition str_in :: "string \<Rightarrow> string \<Rightarrow> bool" where
  "str_in needle hay = sublist needle hay"

text \<open>
  \<^verbatim>\<open>s.replace(old, new)\<close>: the occurrences of \<open>old\<close> are replaced from left to right
  without overlap. With an empty \<open>old\<close> Python puts \<open>new\<close> before every character and
  at the end.
\<close>

function replace :: "string \<Rightarrow> string \<Rightarrow> string \<Rightarrow> string" where
  "replace old new s =
     (if old = [] then new @ concat (map (\<lambda>c. c # new) s)
      else if s = [] then []
      else if prefix old s then new @ replace old new (drop (length old) s)
      else hd s # replace old new (tl s))"
  by pat_completeness auto
termination
  by (relation "measure (\<lambda>(old, new, s). length s)") (auto simp: Suc_le_eq)

declare replace.simps [simp del]

subsection \<open>The outside world\<close>

text \<open>
  The exceptions that can leave a function of the script.
  \<open>OSError\<close> stands for \<^verbatim>\<open>subprocess.run\<close> failing to start the binary,
  \<open>UnicodeDecodeError\<close> for its failing to decode the captured output;
  \<^verbatim>\<open>CalledProcessError\<close> never leaves the command runner.
\<close>

datatype py_exception = TypeError | ValueError | OSError | UnicodeDecodeError

text \<open>
  One run of the binary: it ended with a return code and printed text on stdout and
  stderr (\<open>Completed\<close>), or it ended with a return code and printed bytes that are no
  text in the encoding of the locale (\<open>Undecodable\<close>), or it could not be started.
\<close>

datatype proc_outcome = Completed int string string | Undecodable int | Spawn_failed

text \<open>
  A Python \<^verbatim>\<open>datetime\<close>: the wall-clock reading in microseconds and the UTC offset in
  microseconds of an aware value (\<open>None\<close> for a naive one).
\<close>

record datetime =
  wall_us :: int
  utcoffset_us :: "int option"

text \<open>
  \<open>git\<close> answers an argument list (the repository does not change during a run);
  \<open>clock k\<close> is what the \<open>k\<close>-th call of \<^verbatim>\<open>datetime.now()\<close> returns, a naive
  wall-clock reading in microseconds; the three parsers and printers are library code.
\<close>

record env =
  git :: "string list \<Rightarrow> proc_outcome"
  clock :: "nat \<Rightarrow> int"
  fromisoformat :: "string \<Rightarrow> datetime option"
  isoformat :: "datetime \<Rightarrow> string"
  py_int :: "string \<Rightarrow> int option"

text \<open>The lines the script prints on the error stream, one constructor per format string.\<close>

datatype log_line =
    Err_running "string list" int
  | Err_stderr string
  | Err_branch string py_exception
  | Err_not_a_repository
  | Err_analysis py_exception

text \<open>The mutable part: the error stream written so far and the number of clock reads.\<close>

record world =
  err_stream :: "log_line list"
  clock_reads :: nat

type_synonym 'a outcome = "(py_exception + 'a) \<times> world"

subsection \<open>BranchInfo\<close>

record branch_info =
  name :: string
  last_commit_date :: datetime
  last_commit_sha :: string
  last_commit_msg :: string
  author :: string
  commit_count :: int
  is_merged :: bool
  ahead_behind :: "(int \<times> int) option"

text \<open>The constructor: the three progressive fields start at 0, False and None.\<close>

definition BranchInfo :: "string \<Rightarrow> datetime \<Rightarrow> string \<Rightarrow> string \<Rightarrow> string \<Rightarrow> branch_info" where
  "BranchInfo n d sha msg a =
     \<lparr>name = n, last_commit_date = d, last_commit_sha = sha, last_commit_msg = msg,
      author = a, commit_count = 0, is_merged = False, ahead_behind = None\<rparr>"

definition day_us :: int where
  "day_us = 86400000000"

text \<open>
  \<^verbatim>\<open>(datetime.now() - self.last_commit_date).days\<close>: one clock read; subtracting an
  aware value from the naive \<^verbatim>\<open>now()\<close> raises TypeError; \<^verbatim>\<open>.days\<close> rounds down.
\<close>

definition days_since_update :: "env \<Rightarrow> branch_info \<Rightarrow> world \<Rightarrow> int outcome" where
  "days_since_update e b w =
     (let now = clock e (clock_reads w);
          w' = w\<lparr>clock_reads := Suc (clock_reads w)\<rparr>
      in case utcoffset_us (last_commit_date b) of
           Some off \<Rightarrow> (Inl TypeError, w')
         | None \<Rightarrow> (Inr ((now - wall_us (last_commit_date b)) div day_us), w'))"

record branch_dict =
  d_name :: string
  d_last_commit_date :: string
  d_last_commit_sha :: string
  d_last_commit_msg :: string
  d_author :: string
  d_commit_count :: int
  d_is_merged :: bool
  d_ahead_behind :: "(int \<times> int) option"
  d_days_since_update :: int

definition to_dict :: "env \<Rightarrow> branch_info \<Rightarrow> world \<Rightarrow> branch_dict outcome" where
  "to_dict e b w =
     (case days_since_update e b w of
        (Inl ex, w') \<Rightarrow> (Inl ex, w')
      | (Inr days, w') \<Rightarrow>
          (Inr \<lparr>d_name = name b,
                d_last_commit_date = isoformat e (last_commit_date b),
                d_last_commit_sha = last_commit_sha b,
                d_last_commit_msg = last_commit_msg b,
                d_author = author b,
                d_commit_count = commit_count b,
                d_is_merged = is_merged b,
                d_ahead_behind = ahead_behind b,
                d_days_since_update = days\<rparr>, w'))"

subsection \<open>GitBranchAnalyzer\<close>

record analyzer =
  stale_days :: int
  include_remote :: bool
  current_branch :: string
  default_branch :: string

text \<open>
  \<^verbatim>\<open>_run_git_command\<close>: \<^verbatim>\<open>check=True\<close> turns a non-zero return code into
  CalledProcessError, which is caught here: two lines go to the error stream and the
  result is the empty string. Any other exception of \<^verbatim>\<open>subprocess.run\<close> is not caught:
  with \<^verbatim>\<open>text=True\<close> the output is decoded before the return code is looked at, so
  that output which cannot be decoded raises UnicodeDecodeError at any return code.
\<close>

definition run_git_command :: "env \<Rightarrow> string list \<Rightarrow> world \<Rightarrow> string outcome" where
  "run_git_command e args w =
     (case git e args of
        Spawn_failed \<Rightarrow> (Inl OSError, w)
      | Undecodable rc \<Rightarrow> (Inl UnicodeDecodeError, w)
      | Completed rc out err \<Rightarrow>
          if rc = 0 then (Inr (strip out), w)
          else (Inr [],
                w\<lparr>err_stream := err_stream w @ [Err_running (''git'' # args) rc, Err_stderr err]\<rparr>))"

definition get_current_branch :: "env \<Rightarrow> world \<Rightarrow> string outcome" where
  "get_current_branch e w = run_git_command e [''rev-parse'', ''--abbrev-ref'', ''HEAD''] w"

definition newline :: char where
  "newline = CHR 0x0A"

text \<open>\<^verbatim>\<open>_get_default_branch\<close>: the first line that contains "main" decides.\<close>

definition get_default_branch :: "env \<Rightarrow> world \<Rightarrow> string outcome" where
  "get_default_branch e w =
     (case run_git_command e [''branch'', ''-a''] w of
        (Inl ex, w') \<Rightarrow> (Inl ex, w')
      | (Inr out, w') \<Rightarrow>
          (if list_ex (\<lambda>branch. str_in ''main'' (replace ''* '' [] (strip branch)))
                (split_on newline out)
           then (Inr ''main'', w') else (Inr ''master'', w')))"

text \<open>\<^verbatim>\<open>__init__\<close>: the current branch is asked first, then the default branch.\<close>

definition init :: "env \<Rightarrow> int \<Rightarrow> bool \<Rightarrow> world \<Rightarrow> analyzer outcome" where
  "init e days remote w =
     (case get_current_branch e w of
        (Inl ex, w1) \<Rightarrow> (Inl ex, w1)
      | (Inr cur, w1) \<Rightarrow>
          (case get_default_branch e w1 of
             (Inl ex, w2) \<Rightarrow> (Inl ex, w2)
           | (Inr dflt, w2) \<Rightarrow>
               (Inr \<lparr>stale_days = days, include_remote = remote,
                     current_branch = cur, default_branch = dflt\<rparr>, w2)))"

text \<open>
  \<^verbatim>\<open>get_branches\<close>: every line is stripped, loses the marker of the checked-out branch
  and the prefix of remote branches; empty lines and symbolic references are skipped.
\<close>

definition get_branches :: "env \<Rightarrow> analyzer \<Rightarrow> world \<Rightarrow> string list outcome" where
  "get_branches e self w =
     (case run_git_command e [''branch'', if include_remote self then ''-a'' else ''-l''] w of
        (Inl ex, w') \<Rightarrow> (Inl ex, w')
      | (Inr output, w') \<Rightarrow>
          (Inr (filter (\<lambda>line. line \<noteq> [] \<and> \<not> str_in ''->'' line)
                  (map (\<lambda>line. replace ''remotes/'' [] (replace ''* '' [] (strip line)))
                     (split_on newline output))), w'))"

text \<open>
  The inner \<^verbatim>\<open>try\<close> of \<^verbatim>\<open>get_branch_info\<close> (the ahead/behind query): git prints
  the two counts as "behind ahead"; the pair is stored as (ahead, behind). The result is
  the new value of \<^verbatim>\<open>info.ahead_behind\<close>, which was None before.
\<close>

definition ahead_behind_args :: "analyzer \<Rightarrow> string \<Rightarrow> string list" where
  "ahead_behind_args self branch =
     [''rev-list'', ''--left-right'', ''--count'', default_branch self @ ''...'' @ branch]"

definition ahead_behind_try :: "env \<Rightarrow> analyzer \<Rightarrow> string \<Rightarrow> world \<Rightarrow> (int \<times> int) option outcome" where
  "ahead_behind_try e self branch w =
     (case run_git_command e (ahead_behind_args self branch) w of
        (Inl ex, w') \<Rightarrow> (Inl ex, w')
      | (Inr out, w') \<Rightarrow>
          if out = [] then (Inr None, w')
          else (case split_ws out of
                  [behind, ahead] \<Rightarrow>
                    (case py_int e ahead of
                       None \<Rightarrow> (Inl ValueError, w')
                     | Some a \<Rightarrow>
                         (case py_int e behind of
                            None \<Rightarrow> (Inl ValueError, w')
                          | Some b \<Rightarrow> (Inr (Some (a, b)), w')))
                | _ \<Rightarrow> (Inl ValueError, w')))"

text \<open>\<^verbatim>\<open>except Exception: info.ahead_behind = None\<close>.\<close>

definition ahead_behind_step :: "env \<Rightarrow> analyzer \<Rightarrow> string \<Rightarrow> world \<Rightarrow> (int \<times> int) option \<times> world" where
  "ahead_behind_step e self branch w =
     (case ahead_behind_try e self branch w of
        (Inl ex, w') \<Rightarrow> (None, w')
      | (Inr ab, w') \<Rightarrow> (ab, w'))"

text \<open>
  The first part of the outer \<^verbatim>\<open>try\<close>: the log query, the commit count, the merge
  check and the construction of the record. \<open>Inr None\<close> is the early
  \<^verbatim>\<open>return None\<close> on an empty log output.
\<close>

definition gather_info :: "env \<Rightarrow> analyzer \<Rightarrow> string \<Rightarrow> world \<Rightarrow> branch_info option outcome" where
  "gather_info e self branch w =
     (case run_git_command e [''log'', ''-1'', ''--format=%H|%aI|%an|%s'', branch] w of
        (Inl ex, w1) \<Rightarrow> (Inl ex, w1)
      | (Inr commit_info, w1) \<Rightarrow>
          if commit_info = [] then (Inr None, w1)
          else (case split_max (CHR ''|'') 3 commit_info of
                  [sha, date_str, author_name, msg] \<Rightarrow>
                    (case fromisoformat e (replace ''Z'' ''+00:00'' date_str) of
                       None \<Rightarrow> (Inl ValueError, w1)
                     | Some commit_date \<Rightarrow>
                         (case run_git_command e [''rev-list'', ''--count'', branch] w1 of
                            (Inl ex, w2) \<Rightarrow> (Inl ex, w2)
                          | (Inr count_text, w2) \<Rightarrow>
                              (case run_git_command e
                                      [''branch'', ''--merged'', default_branch self] w2 of
                                 (Inl ex, w3) \<Rightarrow> (Inl ex, w3)
                               | (Inr merged_output, w3) \<Rightarrow>
                                   (case (if count_text = [] then Some 0
                                          else py_int e count_text) of
                                      None \<Rightarrow> (Inl ValueError, w3)
                                    | Some n \<Rightarrow>
                                        (Inr (Some ((BranchInfo branch commit_date sha msg author_name)
                                                \<lparr>commit_count := n,
                                                 is_merged :=
                                                   list_ex (\<lambda>line. str_in branch line)
                                                     (split_on newline merged_output)\<rparr>)),
                                         w3)))))
                | _ \<Rightarrow> (Inl ValueError, w1)))"

text \<open>The whole outer \<^verbatim>\<open>try\<close> block.\<close>

definition get_branch_info_try :: "env \<Rightarrow> analyzer \<Rightarrow> string \<Rightarrow> world \<Rightarrow> branch_info option outcome" where
  "get_branch_info_try e self branch w =
     (case gather_info e self branch w of
        (Inl ex, w1) \<Rightarrow> (Inl ex, w1)
      | (Inr None, w1) \<Rightarrow> (Inr None, w1)
      | (Inr (Some info), w1) \<Rightarrow>
          if branch \<noteq> default_branch self
          then (case ahead_behind_step e self branch w1 of
                  (ab, w2) \<Rightarrow> (Inr (Some (info\<lparr>ahead_behind := ab\<rparr>)), w2))
          else (Inr (Some info), w1))"

text \<open>\<^verbatim>\<open>get_branch_info\<close>: any exception is printed and becomes None.\<close>

definition get_branch_info :: "env \<Rightarrow> analyzer \<Rightarrow> string \<Rightarrow> world \<Rightarrow> branch_info option \<times> world" where
  "get_branch_info e self branch w =
     (case get_branch_info_try e self branch w of
        (Inl ex, w') \<Rightarrow> (None, w'\<lparr>err_stream := err_stream w' @ [Err_branch branch ex]\<rparr>)
      | (Inr r, w') \<Rightarrow> (r, w'))"

text \<open>The loop of \<^verbatim>\<open>analyze\<close> that inspects every branch and keeps the records.\<close>

fun collect_infos :: "env \<Rightarrow> analyzer \<Rightarrow> string list \<Rightarrow> world \<Rightarrow> branch_info list \<times> world" where
  "collect_infos e self [] w = ([], w)"
| "collect_infos e self (branch # rest) w =
     (case get_branch_info e self branch w of
        (None, w1) \<Rightarrow> collect_infos e self rest w1
      | (Some info, w1) \<Rightarrow>
          (case collect_infos e self rest w1 of
             (infos, w2) \<Rightarrow> (info # infos, w2)))"

text \<open>
  Python orders naive values by their reading and aware values by their UTC instant, and
  raises TypeError when a naive value meets an aware one, which a sort of two or more
  records of both kinds cannot avoid.
  \<^verbatim>\<open>sort(key=..., reverse=True)\<close> is stable: equal keys keep their order.
\<close>

definition instant :: "datetime \<Rightarrow> int" where
  "instant d = (case utcoffset_us d of None \<Rightarrow> wall_us d | Some off \<Rightarrow> wall_us d - off)"

definition naive :: "branch_info \<Rightarrow> bool" where
  "naive b = (utcoffset_us (last_commit_date b) = None)"

definition sort_key_of :: "branch_info \<Rightarrow> int" where
  "sort_key_of b = instant (last_commit_date b)"

definition sort_newest_first :: "branch_info list \<Rightarrow> py_exception + branch_info list" where
  "sort_newest_first bs =
     (if list_all naive bs \<or> list_all (\<lambda>b. \<not> naive b) bs
      then Inr (sort_key (\<lambda>b. - sort_key_of b) bs)
      else Inl TypeError)"

text \<open>
  \<^verbatim>\<open>[b for b in branch_infos if keep(b.days_since_update())]\<close>: one clock read for
  every record, in order.
\<close>

fun select_by_age :: "env \<Rightarrow> (int \<Rightarrow> bool) \<Rightarrow> branch_info list \<Rightarrow> world \<Rightarrow> branch_info list outcome" where
  "select_by_age e keep [] w = (Inr [], w)"
| "select_by_age e keep (b # bs) w =
     (case days_since_update e b w of
        (Inl ex, w1) \<Rightarrow> (Inl ex, w1)
      | (Inr days, w1) \<Rightarrow>
          (case select_by_age e keep bs w1 of
             (Inl ex, w2) \<Rightarrow> (Inl ex, w2)
           | (Inr rest, w2) \<Rightarrow> (Inr (if keep days then b # rest else rest), w2)))"

text \<open>\<^verbatim>\<open>[b.to_dict() for b in bs]\<close>.\<close>

fun dicts_of :: "env \<Rightarrow> branch_info list \<Rightarrow> world \<Rightarrow> branch_dict list outcome" where
  "dicts_of e [] w = (Inr [], w)"
| "dicts_of e (b # bs) w =
     (case to_dict e b w of
        (Inl ex, w1) \<Rightarrow> (Inl ex, w1)
      | (Inr d, w1) \<Rightarrow>
          (case dicts_of e bs w1 of
             (Inl ex, w2) \<Rightarrow> (Inl ex, w2)
           | (Inr ds, w2) \<Rightarrow> (Inr (d # ds), w2)))"

text \<open>The local lists of \<^verbatim>\<open>analyze\<close> after "Categorize branches".\<close>

record buckets =
  branch_infos :: "branch_info list"
  stale_infos :: "branch_info list"
  active_infos :: "branch_info list"
  merged_infos :: "branch_info list"

definition categorize :: "env \<Rightarrow> analyzer \<Rightarrow> world \<Rightarrow> buckets outcome" where
  "categorize e self w =
     (case get_branches e self w of
        (Inl ex, w0) \<Rightarrow> (Inl ex, w0)
      | (Inr branches, w0) \<Rightarrow>
          (case collect_infos e self branches w0 of
             (infos, w1) \<Rightarrow>
               (case sort_newest_first infos of
                  Inl ex \<Rightarrow> (Inl ex, w1)
                | Inr sorted_infos \<Rightarrow>
                    (case select_by_age e (\<lambda>days. days > stale_days self) sorted_infos w1 of
                       (Inl ex, w2) \<Rightarrow> (Inl ex, w2)
                     | (Inr stale, w2) \<Rightarrow>
                         (case select_by_age e (\<lambda>days. days \<le> stale_days self) sorted_infos w2 of
                            (Inl ex, w3) \<Rightarrow> (Inl ex, w3)
                          | (Inr active, w3) \<Rightarrow>
                              (Inr \<lparr>branch_infos = sorted_infos, stale_infos = stale,
                                    active_infos = active,
                                    merged_infos = filter is_merged sorted_infos\<rparr>, w3))))))"

record summary =
  total_branches :: nat
  n_active_branches :: nat
  n_stale_branches :: nat
  n_merged_branches :: nat
  s_current_branch :: string
  s_default_branch :: string
  stale_threshold_days :: int

record analysis =
  summary :: summary
  stale_branches :: "branch_dict list"
  active_branches :: "branch_dict list"
  merged_branches :: "branch_dict list"

text \<open>\<^verbatim>\<open>analyze\<close>: the returned dictionary, its entries evaluated in the order written.\<close>

definition analyze :: "env \<Rightarrow> analyzer \<Rightarrow> world \<Rightarrow> analysis outcome" where
  "analyze e self w =
     (case categorize e self w of
        (Inl ex, w1) \<Rightarrow> (Inl ex, w1)
      | (Inr bk, w1) \<Rightarrow>
          (case dicts_of e (stale_infos bk) w1 of
             (Inl ex, w2) \<Rightarrow> (Inl ex, w2)
           | (Inr stale, w2) \<Rightarrow>
               (case dicts_of e (active_infos bk) w2 of
                  (Inl ex, w3) \<Rightarrow> (Inl ex, w3)
                | (Inr active, w3) \<Rightarrow>
                    (case dicts_of e (merged_infos bk) w3 of
                       (Inl ex, w4) \<Rightarrow> (Inl ex, w4)
                     | (Inr merged, w4) \<Rightarrow>
                         (Inr \<lparr>summary =
                                 \<lparr>total_branches = length (branch_infos bk),
                                  n_active_branches = length (active_infos bk),
                                  n_stale_branches = length (stale_infos bk),
                                  n_merged_branches = length (merged_infos bk),
                                  s_current_branch = current_branch self,
                                  s_default_branch = default_branch self,
                                  stale_threshold_days = stale_days self\<rparr>,
                               stale_branches = stale,
                               active_branches = active,
                               merged_branches = merged\<rparr>, w4)))))"

subsection \<open>The text report and the entry point\<close>

text \<open>
  The printed lines, one constructor per \<^verbatim>\<open>print\<close> statement of
  \<^verbatim>\<open>print_text_report\<close>, carrying the values that the format string interpolates.
\<close>

datatype report_line =
    Banner
  | Current_branch_line string
  | Default_branch_line string
  | Stale_threshold_line int
  | Summary_heading
  | Total_line nat
  | Active_line nat
  | Stale_line nat
  | Merged_line nat
  | Stale_heading int
  | Bullet_line string
  | Last_updated_line int
  | Author_line string
  | Status_line bool
  | Last_commit_line string
  | Position_line int int
  | Recommendations_heading
  | Deletable_heading nat
  | Unmerged_heading nat
  | Item_line string
  | And_more_line int
  | Review_note
  | Contributors_heading
  | Contributor_line string nat
  | Closing_rule

text \<open>The body of the loop over the stale branches.\<close>

definition stale_entry :: "branch_dict \<Rightarrow> report_line list" where
  "stale_entry branch =
     [Bullet_line (d_name branch),
      Last_updated_line (d_days_since_update branch),
      Author_line (d_author branch),
      Status_line (d_is_merged branch),
      Last_commit_line (take 50 (d_last_commit_msg branch))]
     @ (case d_ahead_behind branch of
          None \<Rightarrow> []
        | Some (ahead, behind) \<Rightarrow> [Position_line ahead behind])"

text \<open>
  The listing that both recommendation blocks print after their heading: the names of
  \<^verbatim>\<open>xs[:5]\<close>, then the remainder line if \<^verbatim>\<open>len(xs) > 5\<close>.
\<close>

definition first_five :: "branch_dict list \<Rightarrow> report_line list" where
  "first_five xs =
     map (\<lambda>branch. Item_line (d_name branch)) (take 5 xs)
     @ (if length xs > 5 then [And_more_line (int (length xs) - 5)] else [])"

text \<open>\<^verbatim>\<open>authors[author] = authors.get(author, 0) + 1\<close> on a dict in insertion order.\<close>

fun count_author :: "string \<Rightarrow> (string \<times> nat) list \<Rightarrow> (string \<times> nat) list" where
  "count_author a [] = [(a, 1)]"
| "count_author a ((k, n) # rest) =
     (if k = a then (k, n + 1) # rest else (k, n) # count_author a rest)"

text \<open>The header and the summary counts.\<close>

definition summary_section :: "analysis \<Rightarrow> report_line list" where
  "summary_section a =
     (let s = summary a
      in [Banner,
          Current_branch_line (s_current_branch s),
          Default_branch_line (s_default_branch s),
          Stale_threshold_line (stale_threshold_days s),
          Summary_heading,
          Total_line (total_branches s),
          Active_line (n_active_branches s),
          Stale_line (n_stale_branches s),
          Merged_line (n_merged_branches s)])"

definition stale_section :: "analysis \<Rightarrow> report_line list" where
  "stale_section a =
     (if stale_branches a \<noteq> []
      then Stale_heading (stale_threshold_days (summary a))
           # concat (map stale_entry (stale_branches a))
      else [])"

definition deletable_section :: "analysis \<Rightarrow> report_line list" where
  "deletable_section a =
     (let deletable = filter d_is_merged (stale_branches a)
      in if deletable \<noteq> []
         then Deletable_heading (length deletable) # first_five deletable
         else [])"

definition unmerged_section :: "analysis \<Rightarrow> report_line list" where
  "unmerged_section a =
     (let stale_unmerged = filter (\<lambda>b. \<not> d_is_merged b) (stale_branches a)
      in if stale_unmerged \<noteq> []
         then Unmerged_heading (length stale_unmerged) # first_five stale_unmerged @ [Review_note]
         else [])"

definition contributors_section :: "analysis \<Rightarrow> report_line list" where
  "contributors_section a =
     (if active_branches a \<noteq> []
      then (let authors = fold (\<lambda>branch. count_author (d_author branch)) (active_branches a) []
            in Contributors_heading
               # map (\<lambda>(who, n). Contributor_line who n)
                   (take 5 (sort_key (\<lambda>(who, n). - int n) authors)))
      else [])"

text \<open>\<^verbatim>\<open>print_text_report\<close>: the sections in the order in which they are printed.\<close>

definition print_text_report :: "analysis \<Rightarrow> report_line list" where
  "print_text_report a =
     summary_section a
     @ stale_section a
     @ [Recommendations_heading]
     @ deletable_section a
     @ unmerged_section a
     @ contributors_section a
     @ [Closing_rule]"

text \<open>The texts of the "Last commit" lines of a report, in order.\<close>

definition subject_of :: "report_line \<Rightarrow> string list" where
  "subject_of l = (case l of Last_commit_line s \<Rightarrow> [s] | _ \<Rightarrow> [])"

definition last_commit_texts :: "report_line list \<Rightarrow> string list" where
  "last_commit_texts r = concat (map subject_of r)"

record args =
  arg_days :: int
  arg_remote :: bool
  arg_json :: bool

datatype stdout_doc = Json_document analysis | Text_report "report_line list"

datatype exit_state = Exit_0 stdout_doc | Exit_1 | Uncaught py_exception

text \<open>The return code of a run, if the binary was started.\<close>

definition return_code :: "proc_outcome \<Rightarrow> int option" where
  "return_code r =
     (case r of
        Completed rc out err \<Rightarrow> Some rc
      | Undecodable rc \<Rightarrow> Some rc
      | Spawn_failed \<Rightarrow> None)"

text \<open>
  \<^verbatim>\<open>main\<close>: the repository check captures bytes and decodes nothing, and it catches
  CalledProcessError only; the analyzer is constructed outside the \<^verbatim>\<open>try\<close>;
  \<^verbatim>\<open>json.dumps\<close> prints the dictionary as it is.
\<close>

definition main :: "env \<Rightarrow> args \<Rightarrow> world \<Rightarrow> exit_state \<times> world" where
  "main e a w =
     (case return_code (git e [''rev-parse'', ''--git-dir'']) of
        None \<Rightarrow> (Uncaught OSError, w)
      | Some rc \<Rightarrow>
          if rc \<noteq> 0 then (Exit_1, w\<lparr>err_stream := err_stream w @ [Err_not_a_repository]\<rparr>)
          else (case init e (arg_days a) (arg_remote a) w of
                  (Inl ex, w1) \<Rightarrow> (Uncaught ex, w1)
                | (Inr self, w1) \<Rightarrow>
                    (case analyze e self w1 of
                       (Inl ex, w2) \<Rightarrow>
                         (Exit_1, w2\<lparr>err_stream := err_stream w2 @ [Err_analysis ex]\<rparr>)
                     | (Inr result, w2) \<Rightarrow>
                         (Exit_0 (if arg_json a then Json_document result
                                  else Text_report (print_text_report result)), w2))))"

subsection \<open>What a call returns, whatever the state\<close>

text \<open>The value of \<open>run_git_command\<close>; the state only receives the printed lines.\<close>

definition run_value :: "env \<Rightarrow> string list \<Rightarrow> py_exception + string" where
  "run_value e args = fst (run_git_command e args \<lparr>err_stream = [], clock_reads = 0\<rparr>)"

text \<open>The lines that \<open>run_git_command\<close> prints.\<close>

definition run_log :: "env \<Rightarrow> string list \<Rightarrow> log_line list" where
  "run_log e args =
     (case git e args of
        Spawn_failed \<Rightarrow> []
      | Undecodable rc \<Rightarrow> []
      | Completed rc out err \<Rightarrow>
          if rc = 0 then [] else [Err_running (''git'' # args) rc, Err_stderr err])"

text \<open>The record that \<open>get_branch_info\<close> returns for a branch name.\<close>

definition inspect :: "env \<Rightarrow> analyzer \<Rightarrow> string \<Rightarrow> branch_info option" where
  "inspect e self branch = fst (get_branch_info e self branch \<lparr>err_stream = [], clock_reads = 0\<rparr>)"

text \<open>The text of the merged-branch listing that the merge check reads.\<close>

definition merged_listing :: "env \<Rightarrow> analyzer \<Rightarrow> string" where
  "merged_listing e self =
     (case run_value e [''branch'', ''--merged'', default_branch self] of
        Inl ex \<Rightarrow> []
      | Inr listing \<Rightarrow> listing)"

text \<open>The merge check as the code makes it: the name occurs inside some line.\<close>

definition occurs_in_listing :: "string \<Rightarrow> string \<Rightarrow> bool" where
  "occurs_in_listing branch listing = list_ex (\<lambda>line. str_in branch line) (split_on newline listing)"

text \<open>
  The merge check in the words of the specification: the name is a whole token of the
  listing, that is, one of its maximal runs of non-whitespace characters.
\<close>

definition whole_token_of_listing :: "string \<Rightarrow> string \<Rightarrow> bool" where
  "whole_token_of_listing branch listing = (branch \<in> set (split_ws listing))"

text \<open>The age in whole days that a naive record shows at clock reading \<open>k\<close>.\<close>

definition age_at :: "env \<Rightarrow> nat \<Rightarrow> branch_info \<Rightarrow> int" where
  "age_at e k b = (clock e k - wall_us (last_commit_date b)) div day_us"

text \<open>
  No record changes its age in whole days between its stale test and its active test:
  the stale tests of a run take the readings from \<open>k\<close> on, the active tests the
  readings that follow them.
\<close>

definition steady :: "env \<Rightarrow> nat \<Rightarrow> branch_info list \<Rightarrow> bool" where
  "steady e k bs =
     list_all (\<lambda>(b, i). age_at e i b = age_at e (i + length bs) b)
       (zip bs [k ..< k + length bs])"

text \<open>The result of a call, when it returned one.\<close>

definition returned :: "'a outcome \<Rightarrow> 'a option" where
  "returned r = (case fst r of Inl ex \<Rightarrow> None | Inr x \<Rightarrow> Some x)"

definition fresh :: world where
  "fresh = \<lparr>err_stream = [], clock_reads = 0\<rparr>"

subsection \<open>Sample repositories\<close>

text \<open>
  A repository with a detached HEAD line in the listing, four branches and one name
  whose log line has no fields. The commit dates are printed without an offset.
  Anything else makes git exit with 128.
\<close>

definition sample_answers :: "(string list \<times> string) list" where
  "sample_answers =
     [([''rev-parse'', ''--git-dir''], ''.git\<newline>''),
      ([''rev-parse'', ''--abbrev-ref'', ''HEAD''], ''main\<newline>''),
      ([''branch'', ''-l''],
       ''  (HEAD detached at c9)\<newline>  feat\<newline>  feature-x\<newline>  feature-y\<newline>* main\<newline>  odd\<newline>''),
      ([''branch'', ''-a''],
       ''  (HEAD detached at c9)\<newline>  feat\<newline>  feature-x\<newline>  feature-y\<newline>* main\<newline>  odd\<newline>''),
      ([''branch'', ''--merged'', ''main''], ''  feature-x\<newline>* main\<newline>''),
      ([''log'', ''-1'', ''--format=%H|%aI|%an|%s'', ''main''],
       ''c1|2024-04-15T09:00:00|Ann|Release notes\<newline>''),
      ([''log'', ''-1'', ''--format=%H|%aI|%an|%s'', ''feature-y''],
       ''c2|2024-04-05T09:00:00|Bo|Start the importer\<newline>''),
      ([''log'', ''-1'', ''--format=%H|%aI|%an|%s'', ''feat''],
       ''c3|2024-03-06T09:00:00|Bo|Try a faster parser | keep the old one as a fallback for now\<newline>''),
      ([''log'', ''-1'', ''--format=%H|%aI|%an|%s'', ''feature-x''],
       ''c4|2024-03-01T09:00:00|Ann|Add x\<newline>''),
      ([''log'', ''-1'', ''--format=%H|%aI|%an|%s'', ''odd''], ''no fields here\<newline>''),
      ([''rev-list'', ''--count'', ''main''], ''12\<newline>''),
      ([''rev-list'', ''--count'', ''feature-y''], ''14\<newline>''),
      ([''rev-list'', ''--count'', ''feat''], ''9\<newline>''),
      ([''rev-list'', ''--count'', ''feature-x''], ''8\<newline>''),
      ([''rev-list'', ''--left-right'', ''--count'', ''main...feature-y''], ''1'' @ [CHR 0x09] @ ''3\<newline>''),
      ([''rev-list'', ''--left-right'', ''--count'', ''main...feat''], ''5'' @ [CHR 0x09] @ ''2\<newline>''),
      ([''rev-list'', ''--left-right'', ''--count'', ''main...feature-x''], ''4 0 0\<newline>'')]"

definition sample_git :: "string list \<Rightarrow> proc_outcome" where
  "sample_git args =
     (case map_of sample_answers args of
        Some out \<Rightarrow> Completed 0 out []
      | None \<Rightarrow> Completed 128 [] ''fatal: bad revision'')"

definition sample_dates :: "(string \<times> datetime) list" where
  "sample_dates =
     [(''2024-04-15T09:00:00'', \<lparr>wall_us = 63848768400000000, utcoffset_us = None\<rparr>),
      (''2024-04-05T09:00:00'', \<lparr>wall_us = 63847904400000000, utcoffset_us = None\<rparr>),
      (''2024-03-06T09:00:00'', \<lparr>wall_us = 63845312400000000, utcoffset_us = None\<rparr>),
      (''2024-03-01T09:00:00'', \<lparr>wall_us = 63844880400000000, utcoffset_us = None\<rparr>),
      (''2024-03-01T09:00:00+02:00'',
       \<lparr>wall_us = 63844880400000000, utcoffset_us = Some 7200000000\<rparr>)]"

definition sample_isoformat :: "datetime \<Rightarrow> string" where
  "sample_isoformat d =
     (case find (\<lambda>entry. snd entry = d) sample_dates of
        None \<Rightarrow> []
      | Some entry \<Rightarrow> fst entry)"

text \<open>
  \<^verbatim>\<open>int\<close> on text of code points below 256: surrounding whitespace, one optional
  sign, then decimal digits with single underscores between digits.
\<close>

definition digit_value :: "char \<Rightarrow> int" where
  "digit_value c = int (of_char c) - 48"

definition is_digit :: "char \<Rightarrow> bool" where
  "is_digit c = (0 \<le> digit_value c \<and> digit_value c \<le> 9)"

fun digit_groups :: "string \<Rightarrow> bool" where
  "digit_groups [] = False"
| "digit_groups [c] = is_digit c"
| "digit_groups (c # d # r) =
     (if is_digit c
      then (if d = CHR ''_'' then r \<noteq> [] \<and> is_digit (hd r) \<and> digit_groups r
            else digit_groups (d # r))
      else False)"

definition sample_int :: "string \<Rightarrow> int option" where
  "sample_int s =
     (let t = strip s;
          signed = (t \<noteq> [] \<and> (hd t = CHR ''+'' \<or> hd t = CHR ''-''));
          body = (if signed then tl t else t);
          magnitude = foldl (\<lambda>acc c. 10 * acc + digit_value c) 0
                        (filter (\<lambda>c. c \<noteq> CHR ''_'') body)
      in if digit_groups body
         then Some (if signed \<and> hd t = CHR ''-'' then - magnitude else magnitude)
         else None)"

text \<open>The clock stands at 2024-04-15T12:00:00 during the whole run.\<close>

definition sample_env :: env where
  "sample_env =
     \<lparr>git = sample_git,
      clock = (\<lambda>k. 63848779200000000),
      fromisoformat = map_of sample_dates,
      isoformat = sample_isoformat,
      py_int = sample_int\<rparr>"

definition sample_self :: analyzer where
  "sample_self =
     \<lparr>stale_days = 30, include_remote = False,
      current_branch = ''main'', default_branch = ''main''\<rparr>"

text \<open>The records of the four branches of this repository.\<close>

definition info_main :: branch_info where
  "info_main =
     \<lparr>name = ''main'',
      last_commit_date = \<lparr>wall_us = 63848768400000000, utcoffset_us = None\<rparr>,
      last_commit_sha = ''c1'', last_commit_msg = ''Release notes'', author = ''Ann'',
      commit_count = 12, is_merged = True, ahead_behind = None\<rparr>"

definition info_feature_y :: branch_info where
  "info_feature_y =
     \<lparr>name = ''feature-y'',
      last_commit_date = \<lparr>wall_us = 63847904400000000, utcoffset_us = None\<rparr>,
      last_commit_sha = ''c2'', last_commit_msg = ''Start the importer'', author = ''Bo'',
      commit_count = 14, is_merged = False, ahead_behind = Some (3, 1)\<rparr>"

definition info_feat :: branch_info where
  "info_feat =
     \<lparr>name = ''feat'',
      last_commit_date = \<lparr>wall_us = 63845312400000000, utcoffset_us = None\<rparr>,
      last_commit_sha = ''c3'',
      last_commit_msg = ''Try a faster parser | keep the old one as a fallback for now'',
      author = ''Bo'', commit_count = 9, is_merged = True, ahead_behind = Some (2, 5)\<rparr>"

definition info_feature_x :: branch_info where
  "info_feature_x =
     \<lparr>name = ''feature-x'',
      last_commit_date = \<lparr>wall_us = 63844880400000000, utcoffset_us = None\<rparr>,
      last_commit_sha = ''c4'', last_commit_msg = ''Add x'', author = ''Ann'',
      commit_count = 8, is_merged = True, ahead_behind = None\<rparr>"

text \<open>The error stream of that run: the detached HEAD line and the name without fields.\<close>

definition sample_errors :: "log_line list" where
  "sample_errors =
     [Err_running [''git'', ''log'', ''-1'', ''--format=%H|%aI|%an|%s'', ''(HEAD detached at c9)''] 128,
      Err_stderr ''fatal: bad revision'',
      Err_branch ''odd'' ValueError]"

text \<open>
  The same repository one day later, while the clock moves from 08:59:59.999999 to
  09:00:00.000001 between the fourth and the fifth reading, with a threshold of 40 days.
\<close>

definition ticking_env :: env where
  "ticking_env =
     sample_env\<lparr>clock := (\<lambda>k. if k < 4 then 63848854799999999 else 63848854800000001)\<rparr>"

definition ticking_self :: analyzer where
  "ticking_self = sample_self\<lparr>stale_days := 40\<rparr>"

definition ticking_buckets :: buckets where
  "ticking_buckets =
     \<lparr>branch_infos = [info_main, info_feature_y, info_feat, info_feature_x],
      stale_infos = [info_feature_x],
      active_infos = [info_main, info_feature_y],
      merged_infos = [info_main, info_feat, info_feature_x]\<rparr>"

text \<open>
  A repository as git prints it: the strict ISO date of \<^verbatim>\<open>%aI\<close> carries the UTC
  offset, and \<^verbatim>\<open>fromisoformat\<close> returns an aware value for it.
\<close>

definition offset_answers :: "(string list \<times> string) list" where
  "offset_answers =
     [([''rev-parse'', ''--git-dir''], ''.git\<newline>''),
      ([''rev-parse'', ''--abbrev-ref'', ''HEAD''], ''main\<newline>''),
      ([''branch'', ''-l''], ''* main\<newline>''),
      ([''branch'', ''-a''], ''* main\<newline>''),
      ([''branch'', ''--merged'', ''main''], ''* main\<newline>''),
      ([''log'', ''-1'', ''--format=%H|%aI|%an|%s'', ''main''],
       ''c4|2024-03-01T09:00:00+02:00|Ann|Add x\<newline>''),
      ([''rev-list'', ''--count'', ''main''], ''8\<newline>'')]"

definition offset_env :: env where
  "offset_env =
     sample_env\<lparr>git := (\<lambda>args. case map_of offset_answers args of
                                  Some out \<Rightarrow> Completed 0 out []
                                | None \<Rightarrow> Completed 128 [] ''fatal: bad revision'')\<rparr>"

text \<open>
  A repository as git prints it, on a detached HEAD: three branches with commit dates
  that carry the offset +02:00, and the branch legacy, whose last commit has a subject
  that is no text in the encoding of the locale. Only feature-x is merged into main.
\<close>

definition zoned_answers :: "(string list \<times> string) list" where
  "zoned_answers =
     [([''rev-parse'', ''--git-dir''], ''.git\<newline>''),
      ([''rev-parse'', ''--abbrev-ref'', ''HEAD''], ''HEAD\<newline>''),
      ([''branch'', ''-l''],
       ''* (HEAD detached at c9)\<newline>  feat\<newline>  feature-x\<newline>  legacy\<newline>  main\<newline>''),
      ([''branch'', ''-a''],
       ''* (HEAD detached at c9)\<newline>  feat\<newline>  feature-x\<newline>  legacy\<newline>  main\<newline>''),
      ([''branch'', ''--merged'', ''main''], ''  feature-x\<newline>  main\<newline>''),
      ([''log'', ''-1'', ''--format=%H|%aI|%an|%s'', ''main''],
       ''c1|2024-04-15T09:00:00+02:00|Ann|Release notes\<newline>''),
      ([''log'', ''-1'', ''--format=%H|%aI|%an|%s'', ''feat''],
       ''c3|2024-03-06T09:00:00+02:00|Bo|Try a faster parser | keep the old one as a fallback for now\<newline>''),
      ([''log'', ''-1'', ''--format=%H|%aI|%an|%s'', ''feature-x''],
       ''c4|2024-03-01T09:00:00+02:00|Ann|Add x\<newline>''),
      ([''rev-list'', ''--count'', ''main''], ''12\<newline>''),
      ([''rev-list'', ''--count'', ''feat''], ''9\<newline>''),
      ([''rev-list'', ''--count'', ''feature-x''], ''8\<newline>''),
      ([''rev-list'', ''--left-right'', ''--count'', ''main...feat''], ''5'' @ [CHR 0x09] @ ''2\<newline>''),
      ([''rev-list'', ''--left-right'', ''--count'', ''main...feature-x''], ''4'' @ [CHR 0x09] @ ''0\<newline>'')]"

definition zoned_git :: "string list \<Rightarrow> proc_outcome" where
  "zoned_git args =
     (if args = [''log'', ''-1'', ''--format=%H|%aI|%an|%s'', ''legacy''] then Undecodable 0
      else if args = [''rev-list'', ''--count'', ''legacy''] then Undecodable 128
      else (case map_of zoned_answers args of
              Some out \<Rightarrow> Completed 0 out []
            | None \<Rightarrow> Completed 128 [] ''fatal: bad revision''))"

definition zoned_dates :: "(string \<times> datetime) list" where
  "zoned_dates =
     [(''2024-04-15T09:00:00+02:00'',
       \<lparr>wall_us = 63848768400000000, utcoffset_us = Some 7200000000\<rparr>),
      (''2024-03-06T09:00:00+02:00'',
       \<lparr>wall_us = 63845312400000000, utcoffset_us = Some 7200000000\<rparr>),
      (''2024-03-01T09:00:00+02:00'',
       \<lparr>wall_us = 63844880400000000, utcoffset_us = Some 7200000000\<rparr>)]"

definition zoned_env :: env where
  "zoned_env = sample_env\<lparr>git := zoned_git, fromisoformat := map_of zoned_dates\<rparr>"

definition zoned_self :: analyzer where
  "zoned_self =
     \<lparr>stale_days = 30, include_remote = False,
      current_branch = ''HEAD'', default_branch = ''main''\<rparr>"

text \<open>The records of its three branches, and the error stream after their inspection.\<close>

definition zoned_feat :: branch_info where
  "zoned_feat =
     \<lparr>name = ''feat'',
      last_commit_date = \<lparr>wall_us = 63845312400000000, utcoffset_us = Some 7200000000\<rparr>,
      last_commit_sha = ''c3'',
      last_commit_msg = ''Try a faster parser | keep the old one as a fallback for now'',
      author = ''Bo'', commit_count = 9, is_merged = True, ahead_behind = Some (2, 5)\<rparr>"

definition zoned_feature_x :: branch_info where
  "zoned_feature_x =
     \<lparr>name = ''feature-x'',
      last_commit_date = \<lparr>wall_us = 63844880400000000, utcoffset_us = Some 7200000000\<rparr>,
      last_commit_sha = ''c4'', last_commit_msg = ''Add x'', author = ''Ann'',
      commit_count = 8, is_merged = True, ahead_behind = Some (0, 4)\<rparr>"

definition zoned_main :: branch_info where
  "zoned_main =
     \<lparr>name = ''main'',
      last_commit_date = \<lparr>wall_us = 63848768400000000, utcoffset_us = Some 7200000000\<rparr>,
      last_commit_sha = ''c1'', last_commit_msg = ''Release notes'', author = ''Ann'',
      commit_count = 12, is_merged = True, ahead_behind = None\<rparr>"

definition zoned_errors :: "log_line list" where
  "zoned_errors =
     [Err_running [''git'', ''log'', ''-1'', ''--format=%H|%aI|%an|%s'', ''(HEAD detached at c9)''] 128,
      Err_stderr ''fatal: bad revision'',
      Err_branch ''legacy'' UnicodeDecodeError]"

text \<open>
  A repository on a detached HEAD whose only branch is legacy: no listed name gets a
  record.
\<close>

definition detached_git :: "string list \<Rightarrow> proc_outcome" where
  "detached_git args =
     (if args = [''rev-parse'', ''--git-dir''] then Completed 0 ''.git\<newline>'' []
      else if args = [''rev-parse'', ''--abbrev-ref'', ''HEAD''] then Completed 0 ''HEAD\<newline>'' []
      else if args = [''branch'', ''-l''] \<or> args = [''branch'', ''-a'']
        then Completed 0 ''* (HEAD detached at c9)\<newline>  legacy\<newline>'' []
      else if args = [''log'', ''-1'', ''--format=%H|%aI|%an|%s'', ''legacy''] then Undecodable 0
      else Completed 128 [] ''fatal: bad revision'')"

definition detached_env :: env where
  "detached_env = sample_env\<lparr>git := detached_git\<rparr>"

definition detached_self :: analyzer where
  "detached_self =
     \<lparr>stale_days = 30, include_remote = False,
      current_branch = ''HEAD'', default_branch = ''master''\<rparr>"

definition no_buckets :: buckets where
  "no_buckets = \<lparr>branch_infos = [], stale_infos = [], active_infos = [], merged_infos = []\<rparr>"

definition no_branches :: analysis where
  "no_branches =
     \<lparr>summary =
        \<lparr>total_branches = 0, n_active_branches = 0, n_stale_branches = 0,
         n_merged_branches = 0, s_current_branch = ''HEAD'', s_default_branch = ''master'',
         stale_threshold_days = 30\<rparr>,
      stale_branches = [], active_branches = [], merged_branches = []\<rparr>"

text \<open>
  In the listings of git an asterisk is the marker of the checked-out branch at the
  start of a line; the names of branches hold no asterisk.
\<close>

definition marker_leads :: "string \<Rightarrow> bool" where
  "marker_leads listing =
     list_all (\<lambda>line. CHR ''*'' \<notin> set (tl (strip line))) (split_on newline listing)"

text \<open>A listing in which removing the marker text joins the pieces of a word.\<close>

definition joined_env :: env where
  "joined_env = sample_env\<lparr>git := (\<lambda>args. Completed 0 ''  ma* in\<newline>'' [])\<rparr>"

text \<open>A listing without a branch called main: the name only contains the word.\<close>

definition domain_git :: "string list \<Rightarrow> proc_outcome" where
  "domain_git args =
     (if args = [''rev-parse'', ''--git-dir''] then Completed 0 ''.git\<newline>'' []
      else if args = [''rev-parse'', ''--abbrev-ref'', ''HEAD''] then Completed 0 ''develop\<newline>'' []
      else if args = [''branch'', ''-l''] \<or> args = [''branch'', ''-a'']
        then Completed 0 ''* develop\<newline>  domain-fix\<newline>'' []
      else Completed 128 [] ''fatal: bad revision'')"

definition domain_env :: env where
  "domain_env = sample_env\<lparr>git := domain_git\<rparr>"


text \<open>The command lines of the sample runs.\<close>

definition text_args :: args where
  "text_args = \<lparr>arg_days = 30, arg_remote = False, arg_json = False\<rparr>"


text \<open>An analysis result with seven stale branches, the first six of them merged.\<close>

definition stale_dict :: "string \<Rightarrow> bool \<Rightarrow> branch_dict" where
  "stale_dict n m =
     \<lparr>d_name = n, d_last_commit_date = ''2024-03-01T09:00:00'', d_last_commit_sha = ''c4'',
      d_last_commit_msg = ''Add x'', d_author = ''Ann'', d_commit_count = 8,
      d_is_merged = m, d_ahead_behind = None, d_days_since_update = 45\<rparr>"

definition seven_stale :: "branch_dict list" where
  "seven_stale =
     [stale_dict ''b1'' True, stale_dict ''b2'' True, stale_dict ''b3'' True,
      stale_dict ''b4'' True, stale_dict ''b5'' True, stale_dict ''b6'' True,
      stale_dict ''b7'' False]"

definition seven_analysis :: analysis where
  "seven_analysis =
     \<lparr>summary =
        \<lparr>total_branches = 7, n_active_branches = 0, n_stale_branches = 7,
         n_merged_branches = 6, s_current_branch = ''main'', s_default_branch = ''main'',
         stale_threshold_days = 30\<rparr>,
      stale_branches = seven_stale,
      active_branches = [],
      merged_branches = filter d_is_merged seven_stale\<rparr>"

section \<open>Properties\<close>

subsection \<open>Strings\<close>


lemma sublist_dropWhile:
  assumes "sublist n s" "n \<noteq> []" "\<not> p (hd n)"
  shows "sublist n (dropWhile p s)"
  using assms
proof (induction s)
  case Nil
  then show ?case by simp
next
  case (Cons c cs)
  show ?case
  proof (cases "p c")
    case True
    with Cons.prems have "\<not> prefix n (c # cs)"
      by (cases n) auto
    with Cons.prems have "sublist n cs"
      by (cases n) (auto simp: sublist_Cons_right)
    with Cons True show ?thesis by simp
  next
    case False
    with Cons.prems show ?thesis by simp
  qed
qed

lemma str_in_strip:
  assumes "str_in n s" "n \<noteq> []" "\<not> isspace (hd n)" "\<not> isspace (last n)"
  shows "str_in n (strip s)"
proof -
  have "sublist n (dropWhile isspace s)"
    using assms by (simp add: str_in_def sublist_dropWhile)
  then have "sublist (rev n) (rev (dropWhile isspace s))" by simp
  then have "sublist (rev n) (dropWhile isspace (rev (dropWhile isspace s)))"
    using assms by (intro sublist_dropWhile) (simp_all add: hd_rev)
  then show ?thesis by (simp add: str_in_def strip_def sublist_rev_left)
qed

lemma replace_hit:
  assumes "old \<noteq> []" "prefix old s"
  shows "replace old new s = new @ replace old new (drop (length old) s)"
proof -
  have "s \<noteq> []" using assms by auto
  moreover have "replace old new s =
     (if old = [] then new @ concat (map (\<lambda>c. c # new) s)
      else if s = [] then []
      else if prefix old s then new @ replace old new (drop (length old) s)
      else hd s # replace old new (tl s))" by (rule replace.simps)
  ultimately show ?thesis using assms by simp
qed

lemma replace_skip:
  assumes "old \<noteq> []" "\<not> prefix old (c # cs)"
  shows "replace old new (c # cs) = c # replace old new cs"
proof -
  have "replace old new (c # cs) =
     (if old = [] then new @ concat (map (\<lambda>c. c # new) (c # cs))
      else if c # cs = [] then []
      else if prefix old (c # cs) then new @ replace old new (drop (length old) (c # cs))
      else hd (c # cs) # replace old new (tl (c # cs)))" by (rule replace.simps)
  then show ?thesis using assms by simp
qed

lemma replace_marker_keeps_main:
  "sublist ''main'' s \<Longrightarrow> sublist ''main'' (replace ''* '' [] s)"
proof (induction s rule: length_induct)
  case (1 s)
  show ?case
  proof (cases s)
    case Nil
    with 1 show ?thesis by simp
  next
    case (Cons c cs)
    show ?thesis
    proof (cases "prefix ''* '' s")
      case True
      then obtain r where r: "s = ''* '' @ r" by (auto simp: prefix_def)
      with 1(2) have "sublist ''main'' r" by (auto simp: sublist_Cons_right)
      moreover have "length r < length s" using r by simp
      ultimately have "sublist ''main'' (replace ''* '' [] r)" using 1(1) by blast
      moreover have "replace ''* '' [] s = replace ''* '' [] r"
        using r replace_hit [of "''* ''" s "[]"] by simp
      ultimately show ?thesis by simp
    next
      case False
      then have eq: "replace ''* '' [] s = c # replace ''* '' [] cs"
        using Cons by (simp add: replace_skip)
      show ?thesis
      proof (cases "prefix ''main'' s")
        case True
        then obtain r where r: "s = ''main'' @ r" by (auto simp: prefix_def)
        have "replace ''* '' [] s = ''main'' @ replace ''* '' [] r"
          unfolding r by (simp add: replace_skip)
        then show ?thesis by simp
      next
        case np: False
        with 1(2) Cons have "sublist ''main'' cs" by (auto simp: sublist_Cons_right)
        then have "sublist ''main'' (replace ''* '' [] cs)" using 1(1) Cons by simp
        then show ?thesis using eq by (auto simp: sublist_Cons_right)
      qed
    qed
  qed
qed

subsection \<open>The command runner\<close>




subsection \<open>Calls and the state\<close>

lemma run_git_command_value: "fst (run_git_command e args w) = run_value e args"
  by (simp add: run_value_def run_git_command_def split: proc_outcome.splits)

lemma str_in_main_processed:
  assumes "str_in ''main'' line"
  shows "str_in ''main'' (replace ''* '' [] (strip line))"
proof -
  have "\<not> isspace CHR ''m''" "\<not> isspace CHR ''n''" by (simp_all add: isspace_def)
  then have "str_in ''main'' (strip line)"
    using assms by (intro str_in_strip) simp_all
  then show ?thesis
    unfolding str_in_def by (rule replace_marker_keeps_main)
qed

lemma run_git_command_eq:
  "run_git_command e args w = (run_value e args, w\<lparr>err_stream := err_stream w @ run_log e args\<rparr>)"
  by (simp add: run_git_command_def run_value_def run_log_def split: proc_outcome.splits)

lemma ahead_behind_step_value:
  "fst (ahead_behind_step e self b w) = fst (ahead_behind_step e self b w')"
  by (simp add: ahead_behind_step_def ahead_behind_try_def run_git_command_eq
      split: sum.splits list.splits option.splits)

lemma ahead_behind_step_clock:
  "clock_reads (snd (ahead_behind_step e self b w)) = clock_reads w"
  by (simp add: ahead_behind_step_def ahead_behind_try_def run_git_command_eq
      split: sum.splits list.splits option.splits)

lemma gather_info_value:
  "fst (gather_info e self b w) = fst (gather_info e self b w')"
  by (simp add: gather_info_def run_git_command_eq
      split: sum.splits list.splits option.splits)

lemma gather_info_clock:
  "clock_reads (snd (gather_info e self b w)) = clock_reads w"
  by (simp add: gather_info_def run_git_command_eq
      split: sum.splits list.splits option.splits)


lemma get_branch_info_try_value:
  "fst (get_branch_info_try e self b w) = fst (get_branch_info_try e self b w')"
proof -
  obtain r w1 where 1: "gather_info e self b w = (r, w1)" by (cases "gather_info e self b w")
  obtain r' w1' where 2: "gather_info e self b w' = (r', w1')" by (cases "gather_info e self b w'")
  have "r = r'" using gather_info_value [of e self b w w'] 1 2 by simp
  then show ?thesis
    using ahead_behind_step_value [of e self b w1 w1']
    by (auto simp: get_branch_info_try_def 1 2 split: sum.splits option.splits prod.splits)
qed

lemma get_branch_info_try_clock:
  "clock_reads (snd (get_branch_info_try e self b w)) = clock_reads w"
proof -
  obtain r w1 where 1: "gather_info e self b w = (r, w1)" by (cases "gather_info e self b w")
  have "clock_reads w1 = clock_reads w" using gather_info_clock [of e self b w] 1 by simp
  then show ?thesis
    using ahead_behind_step_clock [of e self b w1]
    by (auto simp: get_branch_info_try_def 1 split: sum.splits option.splits prod.splits)
qed

lemma get_branch_info_value: "fst (get_branch_info e self b w) = inspect e self b"
proof -
  have "fst (get_branch_info e self b w) = fst (get_branch_info e self b w')" for w'
    using get_branch_info_try_value [of e self b w w']
    by (auto simp: get_branch_info_def split: prod.splits sum.splits)
  then show ?thesis by (simp add: inspect_def)
qed

lemma get_branch_info_clock:
  "clock_reads (snd (get_branch_info e self b w)) = clock_reads w"
  using get_branch_info_try_clock [of e self b w]
  by (auto simp: get_branch_info_def split: prod.splits sum.splits)

lemma collect_infos_value:
  "fst (collect_infos e self bs w) = List.map_filter (inspect e self) bs"
proof (induction bs arbitrary: w)
  case Nil
  then show ?case by (simp add: List.map_filter_simps)
next
  case (Cons b bs)
  obtain r w1 where 1: "get_branch_info e self b w = (r, w1)"
    by (cases "get_branch_info e self b w")
  then have r: "inspect e self b = r" using get_branch_info_value [of e self b w] by simp
  show ?case
    using Cons.IH [of w1]
    by (cases r) (auto simp: 1 r List.map_filter_simps split: prod.splits)
qed

lemma collect_infos_clock:
  "clock_reads (snd (collect_infos e self bs w)) = clock_reads w"
proof (induction bs arbitrary: w)
  case Nil
  then show ?case by simp
next
  case (Cons b bs)
  obtain r w1 where 1: "get_branch_info e self b w = (r, w1)"
    by (cases "get_branch_info e self b w")
  then have c: "clock_reads w1 = clock_reads w" using get_branch_info_clock [of e self b w] by simp
  show ?case
    using Cons.IH [of w1] c
    by (cases r) (auto simp: 1 split: prod.splits)
qed

lemma gather_info_Some:
  assumes "gather_info e self b w = (Inr (Some info), w')"
  shows "name info = b \<and> is_merged info = occurs_in_listing b (merged_listing e self)
         \<and> ahead_behind info = None"
  using assms
  by (auto simp: gather_info_def run_git_command_eq BranchInfo_def occurs_in_listing_def
        merged_listing_def
      split: sum.splits list.splits option.splits if_splits)

lemma inspect_Some:
  assumes "inspect e self b = Some info"
  shows "name info = b \<and> is_merged info = occurs_in_listing b (merged_listing e self)"
proof -
  obtain r w1 where 1: "gather_info e self b fresh = (r, w1)" by (cases "gather_info e self b fresh")
  show ?thesis
    using assms gather_info_Some [of e self b fresh _ w1]
    by (auto simp: inspect_def fresh_def [symmetric] get_branch_info_def get_branch_info_try_def 1
        split: sum.splits option.splits prod.splits if_splits)
qed

lemma select_by_age_Inr:
  assumes "select_by_age e keep bs w = (Inr r, w')"
  shows "list_all naive bs \<and> clock_reads w' = clock_reads w + length bs
       \<and> err_stream w' = err_stream w
       \<and> r = map fst (filter (\<lambda>(b, k). keep (age_at e k b))
                        (zip bs [clock_reads w ..< clock_reads w + length bs]))"
  using assms
proof (induction bs arbitrary: w r w')
  case Nil
  then show ?case by simp
next
  case (Cons b bs)
  from Cons.prems obtain d w1 rest where
    d: "days_since_update e b w = (Inr d, w1)" and
    rest: "select_by_age e keep bs w1 = (Inr rest, w')" and
    r: "r = (if keep d then b # rest else rest)"
    by (auto split: prod.splits sum.splits)
  from d have nb: "naive b" and dv: "d = age_at e (clock_reads w) b"
    and w1: "clock_reads w1 = Suc (clock_reads w)" "err_stream w1 = err_stream w"
    by (auto simp: days_since_update_def Let_def naive_def age_at_def split: option.splits)
  have up: "[clock_reads w ..< clock_reads w + length (b # bs)]
            = clock_reads w # [clock_reads w1 ..< clock_reads w1 + length bs]"
    using w1 by (subst upt_rec) simp
  show ?case
    using Cons.IH [OF rest] nb w1 r dv unfolding up by simp
qed

lemma select_by_age_naive:
  assumes "list_all naive bs"
  shows "\<exists>r w'. select_by_age e keep bs w = (Inr r, w')"
  using assms
proof (induction bs arbitrary: w)
  case Nil
  then show ?case by simp
next
  case (Cons b bs)
  then obtain d w1 where d: "days_since_update e b w = (Inr d, w1)"
    by (auto simp: days_since_update_def Let_def naive_def split: option.splits)
  from Cons obtain rest w2 where "select_by_age e keep bs w1 = (Inr rest, w2)"
    by fastforce
  then show ?case using d by simp
qed

lemma dicts_of_Inr:
  assumes "dicts_of e bs w = (Inr ds, w')"
  shows "map d_name ds = map name bs
       \<and> map d_last_commit_msg ds = map last_commit_msg bs
       \<and> map d_is_merged ds = map is_merged bs
       \<and> map d_last_commit_date ds = map (\<lambda>b. isoformat e (last_commit_date b)) bs"
  using assms
proof (induction bs arbitrary: w ds w')
  case Nil
  then show ?case by simp
next
  case (Cons b bs)
  from Cons.prems obtain d w1 rest where
    d: "to_dict e b w = (Inr d, w1)" and
    rest: "dicts_of e bs w1 = (Inr rest, w')" and
    ds: "ds = d # rest"
    by (auto split: prod.splits sum.splits)
  from d have "d_name d = name b" "d_last_commit_msg d = last_commit_msg b"
    "d_is_merged d = is_merged b" "d_last_commit_date d = isoformat e (last_commit_date b)"
    by (auto simp: to_dict_def split: prod.splits sum.splits)
  then show ?case using Cons.IH [OF rest] ds by simp
qed

lemma get_branches_clock:
  "get_branches e self w = (r, w0) \<Longrightarrow> clock_reads w0 = clock_reads w"
  by (auto simp: get_branches_def run_git_command_eq split: sum.splits)

lemma sort_newest_first_Inr:
  "sort_newest_first bs = Inr srt \<Longrightarrow> srt = sort_key (\<lambda>b. - sort_key_of b) bs"
  by (auto simp: sort_newest_first_def split: if_splits)

lemma categorize_Inr:
  assumes "categorize e self w = (Inr bk, w')"
  shows "\<exists>branches w0.
           get_branches e self w = (Inr branches, w0)
         \<and> branch_infos bk = sort_key (\<lambda>b. - sort_key_of b) (List.map_filter (inspect e self) branches)
         \<and> list_all naive (branch_infos bk)
         \<and> stale_infos bk =
             map fst (filter (\<lambda>(b, k). age_at e k b > stale_days self)
               (zip (branch_infos bk)
                  [clock_reads w ..< clock_reads w + length (branch_infos bk)]))
         \<and> active_infos bk =
             map fst (filter (\<lambda>(b, k). age_at e k b \<le> stale_days self)
               (zip (branch_infos bk)
                  [clock_reads w + length (branch_infos bk)
                     ..< clock_reads w + length (branch_infos bk) + length (branch_infos bk)]))
         \<and> merged_infos bk = filter is_merged (branch_infos bk)"
proof -
  from assms obtain branches w0 where gb: "get_branches e self w = (Inr branches, w0)"
    by (auto simp: categorize_def split: prod.splits sum.splits)
  obtain infos w1 where ci: "collect_infos e self branches w0 = (infos, w1)"
    by (cases "collect_infos e self branches w0")
  from assms gb ci obtain srt where so: "sort_newest_first infos = Inr srt"
    by (auto simp: categorize_def split: prod.splits sum.splits)
  from assms gb ci so obtain stale w2 where st: "select_by_age e (\<lambda>days. days > stale_days self) srt w1 = (Inr stale, w2)"
    by (auto simp: categorize_def split: prod.splits sum.splits)
  from assms gb ci so st obtain active w3 where ac: "select_by_age e (\<lambda>days. days \<le> stale_days self) srt w2 = (Inr active, w3)"
    by (auto simp: categorize_def split: prod.splits sum.splits)
  from assms gb ci so st ac have bk: "bk = \<lparr>branch_infos = srt, stale_infos = stale,
                                    active_infos = active,
                                    merged_infos = filter is_merged srt\<rparr>"
    by (simp add: categorize_def)
  have infos: "infos = List.map_filter (inspect e self) branches"
    using collect_infos_value [of e self branches w0] ci by simp
  have c1: "clock_reads w1 = clock_reads w"
    using collect_infos_clock [of e self branches w0] ci get_branches_clock [OF gb] by simp
  note s1 = select_by_age_Inr [OF st]
  note s2 = select_by_age_Inr [OF ac]
  show ?thesis
    using gb sort_newest_first_Inr [OF so] infos c1 s1 s2 bk
    by (intro exI [of _ branches] exI [of _ w0]) simp
qed

subsection \<open>The default branch\<close>

lemma replace_without_marker:
  "CHR ''*'' \<notin> set s \<Longrightarrow> replace ''* '' [] s = s"
proof (induction s)
  case Nil
  have "replace ''* '' [] [] =
     (if ''* '' = [] then [] @ concat (map (\<lambda>c. c # []) [])
      else if ([]::string) = [] then []
      else if prefix ''* '' [] then [] @ replace ''* '' [] (drop (length ''* '') [])
      else hd [] # replace ''* '' [] (tl []))" by (rule replace.simps)
  then show ?case by simp
next
  case (Cons c cs)
  then have "c \<noteq> CHR ''*''" by auto
  then have "\<not> prefix ''* '' (c # cs)" by simp
  then have "replace ''* '' [] (c # cs) = c # replace ''* '' [] cs"
    by (intro replace_skip) simp_all
  with Cons show ?case by simp
qed

lemma strip_is_sublist: "sublist (strip s) s"
proof -
  have "suffix (dropWhile isspace s) s" by (rule suffix_dropWhile)
  then have a: "sublist (dropWhile isspace s) s" by (rule suffix_imp_sublist)
  have "suffix (dropWhile isspace (rev (dropWhile isspace s))) (rev (dropWhile isspace s))"
    by (rule suffix_dropWhile)
  then have "sublist (dropWhile isspace (rev (dropWhile isspace s))) (rev (dropWhile isspace s))"
    by (rule suffix_imp_sublist)
  then have "sublist (strip s) (dropWhile isspace s)"
    by (simp add: strip_def sublist_rev_left)
  with a show ?thesis by (rule sublist_order.order_trans [rotated])
qed

lemma main_in_processed:
  assumes "CHR ''*'' \<notin> set (tl (strip line))"
    and "str_in ''main'' (replace ''* '' [] (strip line))"
  shows "str_in ''main'' line"
proof -
  have "sublist ''main'' (strip line)"
  proof (cases "strip line")
    case Nil
    with assms(2) have "str_in ''main'' (replace ''* '' [] [])" by simp
    then show ?thesis using replace_without_marker [of "[]"] by (simp add: str_in_def)
  next
    case (Cons c cs)
    with assms(1) have cs: "CHR ''*'' \<notin> set cs" by simp
    show ?thesis
    proof (cases "prefix ''* '' (c # cs)")
      case True
      then obtain r where r: "c # cs = ''* '' @ r" by (auto simp: prefix_def)
      then have "CHR ''*'' \<notin> set r" using cs by auto
      then have "replace ''* '' [] r = r" by (rule replace_without_marker)
      moreover have "replace ''* '' [] (c # cs) = [] @ replace ''* '' [] (drop (length ''* '') (c # cs))"
        using True by (intro replace_hit) simp_all
      ultimately have "replace ''* '' [] (c # cs) = r" using r by simp
      with assms(2) Cons have "sublist ''main'' r" by (simp add: str_in_def)
      then have "sublist ''main'' (''* '' @ r)" by (auto simp: sublist_Cons_right)
      with r Cons show ?thesis by simp
    next
      case False
      then have "replace ''* '' [] (c # cs) = c # replace ''* '' [] cs"
        by (intro replace_skip) simp_all
      then have "replace ''* '' [] (c # cs) = c # cs"
        using replace_without_marker [OF cs] by simp
      with assms(2) Cons show ?thesis by (simp add: str_in_def)
    qed
  qed
  then show ?thesis
    unfolding str_in_def using strip_is_sublist [of line] by (rule sublist_order.order_trans)
qed

lemma marker_text_inside_a_line:
  "run_value joined_env [''branch'', ''-a''] = Inr ''ma* in''
   \<and> returned (get_default_branch joined_env fresh) = Some ''main''
   \<and> \<not> list_ex (str_in ''main'') (split_on newline ''ma* in'')
   \<and> \<not> marker_leads ''ma* in''"
  by code_simp

text \<open>
  Claim C10. For a branch listing of git, in which an asterisk stands only at the start
  of a line, the default branch computed at construction is one of the two literals
  "main" and "master": it is "main" when some line of the listing contains "main", as the
  line of a branch named domain-fix does, and "master" otherwise. The name of the
  matching branch is never used: the analyzer that the constructor returns holds the
  same literal.
\<close>

theorem C10_main_or_master:
  assumes "run_value e [''branch'', ''-a''] = Inr listing"
    and "marker_leads listing"
  shows "returned (get_default_branch e w) =
           Some (if \<exists>line \<in> set (split_on newline listing). str_in ''main'' line
                 then ''main'' else ''master'')
       \<and> (init e days remote w = (Inr self, w') \<longrightarrow>
            default_branch self =
              (if \<exists>line \<in> set (split_on newline listing). str_in ''main'' line
               then ''main'' else ''master''))"
proof -
  let ?found = "\<exists>line \<in> set (split_on newline listing). str_in ''main'' line"
  have run: "run_git_command e [''branch'', ''-a''] v =
      (Inr listing, v\<lparr>err_stream := err_stream v @ run_log e [''branch'', ''-a'']\<rparr>)" for v
    using assms(1) by (simp add: run_git_command_eq)
  have same: "(\<exists>line \<in> set (split_on newline listing).
                 str_in ''main'' (replace ''* '' [] (strip line))) \<longleftrightarrow> ?found"
  proof
    assume "\<exists>line \<in> set (split_on newline listing). str_in ''main'' (replace ''* '' [] (strip line))"
    then obtain line where l: "line \<in> set (split_on newline listing)"
      "str_in ''main'' (replace ''* '' [] (strip line))" by blast
    from assms(2) l(1) have "CHR ''*'' \<notin> set (tl (strip line))"
      by (simp add: marker_leads_def list_all_iff)
    then have "str_in ''main'' line" using l(2) by (rule main_in_processed)
    with l(1) show ?found by blast
  next
    assume ?found
    then show "\<exists>line \<in> set (split_on newline listing).
                 str_in ''main'' (replace ''* '' [] (strip line))"
      using str_in_main_processed by blast
  qed
  have dflt: "fst (get_default_branch e v) = Inr (if ?found then ''main'' else ''master'')" for v
    using same by (simp add: get_default_branch_def run list_ex_iff)
  have 1: "returned (get_default_branch e w) = Some (if ?found then ''main'' else ''master'')"
    by (simp add: returned_def dflt)
  have 2: "default_branch self = (if ?found then ''main'' else ''master'')"
    if i: "init e days remote w = (Inr self, w')"
  proof -
    obtain r1 w1 where c: "get_current_branch e w = (r1, w1)"
      by (cases "get_current_branch e w")
    obtain r2 w2 where d: "get_default_branch e w1 = (r2, w2)"
      by (cases "get_default_branch e w1")
    from dflt [of w1] d have r2: "r2 = Inr (if ?found then ''main'' else ''master'')" by simp
    from i c d r2 show ?thesis
      by (auto simp: init_def split: sum.splits)
  qed
  from 1 2 show ?thesis by blast
qed

theorem C10_witness:
  "run_value domain_env [''branch'', ''-a''] = Inr ''* develop\<newline>  domain-fix''
   \<and> marker_leads ''* develop\<newline>  domain-fix''
   \<and> (\<exists>line \<in> set (split_on newline ''* develop\<newline>  domain-fix''). str_in ''main'' line)
   \<and> returned (get_default_branch domain_env fresh) = Some ''main''
   \<and> init domain_env 30 False fresh =
       (Inr \<lparr>stale_days = 30, include_remote = False,
             current_branch = ''develop'', default_branch = ''main''\<rparr>, fresh)
   \<and> run_value detached_env [''branch'', ''-a''] = Inr ''* (HEAD detached at c9)\<newline>  legacy''
   \<and> marker_leads ''* (HEAD detached at c9)\<newline>  legacy''
   \<and> \<not> (\<exists>line \<in> set (split_on newline ''* (HEAD detached at c9)\<newline>  legacy'').
           str_in ''main'' line)
   \<and> returned (get_default_branch detached_env fresh) = Some ''master''
   \<and> init detached_env 30 False fresh = (Inr detached_self, fresh)"
proof -
  have l: "run_value domain_env [''branch'', ''-a''] = Inr ''* develop\<newline>  domain-fix''"
    by code_simp
  have k: "marker_leads ''* develop\<newline>  domain-fix''"
    by code_simp
  have m: "list_ex (str_in ''main'') (split_on newline ''* develop\<newline>  domain-fix'')"
    by code_simp
  have i: "init domain_env 30 False fresh =
       (Inr \<lparr>stale_days = 30, include_remote = False,
             current_branch = ''develop'', default_branch = ''main''\<rparr>, fresh)"
    by code_simp
  have l': "run_value detached_env [''branch'', ''-a''] = Inr ''* (HEAD detached at c9)\<newline>  legacy''"
    by code_simp
  have k': "marker_leads ''* (HEAD detached at c9)\<newline>  legacy''"
    by code_simp
  have m': "\<not> list_ex (str_in ''main'') (split_on newline ''* (HEAD detached at c9)\<newline>  legacy'')"
    by code_simp
  have i': "init detached_env 30 False fresh = (Inr detached_self, fresh)"
    by code_simp
  show ?thesis
    using l k m i l' k' m' i'
      C10_main_or_master [OF l k, of fresh 30 False]
      C10_main_or_master [OF l' k', of fresh 30 False]
    by (simp add: list_ex_iff)
qed

subsection \<open>The text report\<close>

text \<open>
  Claim C9. A recommendation block with more than five branches lists the first five
  names and then one line with the number of remaining branches; a block with five
  branches or fewer lists all names and no such line. Both blocks of the report, the
  one for stale and merged branches and the one for stale branches that are not
  merged, are printed in this way after their heading.
\<close>

theorem C9_recommendation_cap:
  "(length xs > 5 \<longrightarrow>
      first_five xs = map (\<lambda>b. Item_line (d_name b)) (take 5 xs)
                      @ [And_more_line (int (length xs - 5))]
      \<and> length (take 5 xs) = 5)
   \<and> (length xs \<le> 5 \<longrightarrow> first_five xs = map (\<lambda>b. Item_line (d_name b)) xs)
   \<and> (filter d_is_merged (stale_branches a) \<noteq> [] \<longrightarrow>
        sublist (Deletable_heading (length (filter d_is_merged (stale_branches a)))
                 # first_five (filter d_is_merged (stale_branches a)))
          (print_text_report a))
   \<and> (filter (\<lambda>b. \<not> d_is_merged b) (stale_branches a) \<noteq> [] \<longrightarrow>
        sublist (Unmerged_heading (length (filter (\<lambda>b. \<not> d_is_merged b) (stale_branches a)))
                 # first_five (filter (\<lambda>b. \<not> d_is_merged b) (stale_branches a))
                 @ [Review_note])
          (print_text_report a))"
proof (intro conjI impI)
  assume "length xs > 5"
  then show "first_five xs = map (\<lambda>b. Item_line (d_name b)) (take 5 xs)
                      @ [And_more_line (int (length xs - 5))]"
    by (simp add: first_five_def of_nat_diff)
next
  assume "length xs > 5"
  then show "length (take 5 xs) = 5" by simp
next
  assume "length xs \<le> 5"
  then show "first_five xs = map (\<lambda>b. Item_line (d_name b)) xs"
    by (simp add: first_five_def)
next
  let ?d = "filter d_is_merged (stale_branches a)"
  assume ne: "?d \<noteq> []"
  have "print_text_report a =
          (summary_section a @ stale_section a @ [Recommendations_heading])
          @ (Deletable_heading (length ?d) # first_five ?d)
          @ (unmerged_section a @ contributors_section a @ [Closing_rule])"
    using ne by (simp add: print_text_report_def deletable_section_def Let_def)
  then show "sublist (Deletable_heading (length ?d) # first_five ?d) (print_text_report a)"
    unfolding sublist_def by blast
next
  let ?u = "filter (\<lambda>b. \<not> d_is_merged b) (stale_branches a)"
  assume ne: "?u \<noteq> []"
  have "print_text_report a =
          (summary_section a @ stale_section a @ [Recommendations_heading] @ deletable_section a)
          @ (Unmerged_heading (length ?u) # first_five ?u @ [Review_note])
          @ (contributors_section a @ [Closing_rule])"
    using ne by (simp add: print_text_report_def unmerged_section_def Let_def)
  then show "sublist (Unmerged_heading (length ?u) # first_five ?u @ [Review_note]) (print_text_report a)"
    unfolding sublist_def by blast
qed

theorem C9_witness:
  "5 < length (filter d_is_merged seven_stale)
   \<and> first_five (filter d_is_merged seven_stale) =
       map (\<lambda>b. Item_line (d_name b)) (take 5 (filter d_is_merged seven_stale))
       @ [And_more_line (int (length (filter d_is_merged seven_stale) - 5))]
   \<and> length (filter d_is_merged seven_stale) - 5 = 1
   \<and> length (filter (\<lambda>b. \<not> d_is_merged b) seven_stale) \<le> 5
   \<and> first_five (filter (\<lambda>b. \<not> d_is_merged b) seven_stale) = [Item_line ''b7'']
   \<and> sublist (Deletable_heading (length (filter d_is_merged (stale_branches seven_analysis)))
               # first_five (filter d_is_merged (stale_branches seven_analysis)))
        (print_text_report seven_analysis)
   \<and> sublist (Unmerged_heading (length (filter (\<lambda>b. \<not> d_is_merged b) (stale_branches seven_analysis)))
               # first_five (filter (\<lambda>b. \<not> d_is_merged b) (stale_branches seven_analysis))
               @ [Review_note])
        (print_text_report seven_analysis)"
proof -
  have many: "5 < length (filter d_is_merged seven_stale)" by code_simp
  have rest: "length (filter d_is_merged seven_stale) - 5 = 1" by code_simp
  have few: "length (filter (\<lambda>b. \<not> d_is_merged b) seven_stale) \<le> 5" by code_simp
  have one: "map (\<lambda>b. Item_line (d_name b)) (filter (\<lambda>b. \<not> d_is_merged b) seven_stale) = [Item_line ''b7'']"
    by code_simp
  have d: "filter d_is_merged (stale_branches seven_analysis) \<noteq> []" by code_simp
  have u: "filter (\<lambda>b. \<not> d_is_merged b) (stale_branches seven_analysis) \<noteq> []" by code_simp
  show ?thesis
    using many rest few one d u
      C9_recommendation_cap [of "filter d_is_merged seven_stale" seven_analysis]
      C9_recommendation_cap [of "filter (\<lambda>b. \<not> d_is_merged b) seven_stale" seven_analysis]
    by simp
qed

lemma subjects_Nil: "last_commit_texts [] = []"
  by (simp add: last_commit_texts_def)

lemma subjects_append: "last_commit_texts (xs @ ys) = last_commit_texts xs @ last_commit_texts ys"
  by (simp add: last_commit_texts_def)

lemma subjects_Cons: "last_commit_texts (x # xs) = subject_of x @ last_commit_texts xs"
  by (simp add: last_commit_texts_def)

lemma subjects_stale_entry: "last_commit_texts (stale_entry d) = [take 50 (d_last_commit_msg d)]"
  by (cases "d_ahead_behind d")
     (auto simp: stale_entry_def subjects_Cons subjects_Nil subjects_append subject_of_def)

lemma subjects_entries:
  "last_commit_texts (concat (map stale_entry ds)) = map (\<lambda>d. take 50 (d_last_commit_msg d)) ds"
  by (induction ds) (simp_all add: subjects_append subjects_stale_entry subjects_Nil)

lemma subjects_first_five: "last_commit_texts (first_five xs) = []"
  by (simp add: last_commit_texts_def first_five_def subject_of_def)

lemma subjects_contributors:
  "last_commit_texts (map (\<lambda>(who, n). Contributor_line who n) xs) = []"
  by (induction xs) (auto simp: last_commit_texts_def subject_of_def)

lemma subjects_report:
  "last_commit_texts (print_text_report a) = map (\<lambda>d. take 50 (d_last_commit_msg d)) (stale_branches a)"
proof -
  have 1: "last_commit_texts (summary_section a) = []"
    by (simp add: summary_section_def Let_def subjects_Cons subjects_Nil subject_of_def)
  have 2: "last_commit_texts (stale_section a) = map (\<lambda>d. take 50 (d_last_commit_msg d)) (stale_branches a)"
    by (simp add: stale_section_def subjects_Cons subjects_Nil subjects_entries subject_of_def)
  have 3: "last_commit_texts (deletable_section a) = []"
    by (simp add: deletable_section_def Let_def subjects_Cons subjects_Nil subjects_first_five subject_of_def)
  have 4: "last_commit_texts (unmerged_section a) = []"
    by (simp add: unmerged_section_def Let_def subjects_Cons subjects_append subjects_Nil subjects_first_five subject_of_def)
  have 5: "last_commit_texts (contributors_section a) = []"
    by (simp add: contributors_section_def Let_def subjects_Cons subjects_Nil subjects_contributors subject_of_def)
  show ?thesis
    by (simp add: print_text_report_def subjects_append subjects_Cons subjects_Nil 1 2 3 4 5 subject_of_def)
qed

lemma analyze_Inr:
  assumes "analyze e self w = (Inr r, w')"
  shows "\<exists>bk w1.
           categorize e self w = (Inr bk, w1)
         \<and> total_branches (summary r) = length (branch_infos bk)
         \<and> n_stale_branches (summary r) = length (stale_infos bk)
         \<and> n_active_branches (summary r) = length (active_infos bk)
         \<and> n_merged_branches (summary r) = length (merged_infos bk)
         \<and> map d_name (stale_branches r) = map name (stale_infos bk)
         \<and> map d_name (active_branches r) = map name (active_infos bk)
         \<and> map d_name (merged_branches r) = map name (merged_infos bk)
         \<and> map d_last_commit_msg (stale_branches r) = map last_commit_msg (stale_infos bk)
         \<and> map d_last_commit_msg (active_branches r) = map last_commit_msg (active_infos bk)
         \<and> map d_last_commit_msg (merged_branches r) = map last_commit_msg (merged_infos bk)
         \<and> map d_is_merged (merged_branches r) = map is_merged (merged_infos bk)
         \<and> map d_last_commit_date (stale_branches r)
             = map (\<lambda>b. isoformat e (last_commit_date b)) (stale_infos bk)
         \<and> map d_last_commit_date (active_branches r)
             = map (\<lambda>b. isoformat e (last_commit_date b)) (active_infos bk)
         \<and> map d_last_commit_date (merged_branches r)
             = map (\<lambda>b. isoformat e (last_commit_date b)) (merged_infos bk)"
proof -
  from assms obtain bk w1 where c: "categorize e self w = (Inr bk, w1)"
    by (auto simp: analyze_def split: prod.splits sum.splits)
  from assms c obtain stale w2 where s: "dicts_of e (stale_infos bk) w1 = (Inr stale, w2)"
    by (auto simp: analyze_def split: prod.splits sum.splits)
  from assms c s obtain active w3 where a: "dicts_of e (active_infos bk) w2 = (Inr active, w3)"
    by (auto simp: analyze_def split: prod.splits sum.splits)
  from assms c s a obtain merged w4 where m: "dicts_of e (merged_infos bk) w3 = (Inr merged, w4)"
    by (auto simp: analyze_def split: prod.splits sum.splits)
  from assms c s a m have r:
    "r = \<lparr>summary =
            \<lparr>total_branches = length (branch_infos bk),
             n_active_branches = length (active_infos bk),
             n_stale_branches = length (stale_infos bk),
             n_merged_branches = length (merged_infos bk),
             s_current_branch = current_branch self,
             s_default_branch = default_branch self,
             stale_threshold_days = stale_days self\<rparr>,
          stale_branches = stale, active_branches = active, merged_branches = merged\<rparr>"
    by (simp add: analyze_def)
  show ?thesis
    using c dicts_of_Inr [OF s] dicts_of_Inr [OF a] dicts_of_Inr [OF m]
    by (intro exI [of _ bk] exI [of _ w1]) (simp add: r)
qed

lemma main_json:
  assumes "main e a w = (Exit_0 (Json_document r), w')"
  shows "arg_json a \<and> (\<exists>self w0. init e (arg_days a) (arg_remote a) w = (Inr self, w0)
                         \<and> analyze e self w0 = (Inr r, w'))"
  using assms
  by (auto simp: main_def split: option.splits if_splits prod.splits sum.splits)

lemma split_max_nonempty: "split_max sep n s \<noteq> []"
  by (induction sep n s rule: split_max.induct) (auto split: list.splits)

lemma join_split_max: "join_with sep (split_max sep n s) = s"
proof (induction sep n s rule: split_max.induct)
  case (1 sep s)
  then show ?case by simp
next
  case (2 sep n)
  then show ?case by simp
next
  case (3 sep n c cs)
  show ?case
  proof (cases "c = sep")
    case True
    obtain p ps where "split_max sep n cs = p # ps"
      using split_max_nonempty [of sep n cs] by (cases "split_max sep n cs") auto
    then show ?thesis using 3 True by simp
  next
    case False
    obtain p ps where P: "split_max sep (Suc n) cs = p # ps"
      using split_max_nonempty [of sep "Suc n" cs] by (cases "split_max sep (Suc n) cs") auto
    then have "join_with sep ((c # p) # ps) = c # join_with sep (p # ps)"
      by (cases ps) simp_all
    then show ?thesis using 3 False P by simp
  qed
qed

lemma gather_info_subject:
  assumes "gather_info e self b w = (Inr (Some info), w')"
  shows "\<exists>sha date who.
           run_value e [''log'', ''-1'', ''--format=%H|%aI|%an|%s'', b]
             = Inr (sha @ CHR ''|'' # date @ CHR ''|'' # who @ CHR ''|'' # last_commit_msg info)"
proof -
  from assms obtain out where
    out: "run_value e [''log'', ''-1'', ''--format=%H|%aI|%an|%s'', b] = Inr out"
    by (auto simp: gather_info_def run_git_command_eq split: sum.splits)
  from assms out obtain sha date who msg where
    sp: "split_max (CHR ''|'') 3 out = [sha, date, who, msg]" and
    m: "last_commit_msg info = msg"
    by (auto simp: gather_info_def run_git_command_eq BranchInfo_def
        split: sum.splits list.splits option.splits if_splits)
  have "out = join_with (CHR ''|'') (split_max (CHR ''|'') 3 out)"
    by (simp only: join_split_max)
  then have "out = sha @ CHR ''|'' # date @ CHR ''|'' # who @ CHR ''|'' # msg"
    by (simp add: sp)
  with out m show ?thesis by blast
qed

lemma inspect_subject:
  assumes "inspect e self b = Some info"
  shows "\<exists>sha date who.
           run_value e [''log'', ''-1'', ''--format=%H|%aI|%an|%s'', b]
             = Inr (sha @ CHR ''|'' # date @ CHR ''|'' # who @ CHR ''|'' # last_commit_msg info)"
proof -
  obtain r w1 where g: "gather_info e self b fresh = (r, w1)"
    by (cases "gather_info e self b fresh")
  from assms g obtain info0 where
    r: "r = Inr (Some info0)" and "last_commit_msg info = last_commit_msg info0"
    by (auto simp: inspect_def fresh_def [symmetric] get_branch_info_def get_branch_info_try_def
        split: sum.splits option.splits prod.splits if_splits)
  then show ?thesis using gather_info_subject [of e self b fresh info0 w1] g by simp
qed

lemma subject_truncation:
  "last_commit_texts (print_text_report a) =
     map (\<lambda>d. take 50 (d_last_commit_msg d)) (stale_branches a)
   \<and> (\<forall>d \<in> set (stale_branches a).
         50 < length (d_last_commit_msg d) \<longrightarrow> length (take 50 (d_last_commit_msg d)) = 50)
   \<and> (main e args w = (Exit_0 (Json_document r), w') \<longrightarrow>
        arg_json args
        \<and> (\<exists>self w0 bk w1.
              init e (arg_days args) (arg_remote args) w = (Inr self, w0)
            \<and> analyze e self w0 = (Inr r, w')
            \<and> categorize e self w0 = (Inr bk, w1)
            \<and> map d_last_commit_msg (stale_branches r) = map last_commit_msg (stale_infos bk)
            \<and> map d_last_commit_msg (active_branches r) = map last_commit_msg (active_infos bk)
            \<and> map d_last_commit_msg (merged_branches r) = map last_commit_msg (merged_infos bk)))
   \<and> (inspect e self branch = Some info \<longrightarrow>
        (\<exists>sha date who.
           run_value e [''log'', ''-1'', ''--format=%H|%aI|%an|%s'', branch]
             = Inr (sha @ CHR ''|'' # date @ CHR ''|'' # who @ CHR ''|'' # last_commit_msg info)))"
proof (intro conjI impI ballI)
  assume "inspect e self branch = Some info"
  then show "\<exists>sha date who.
           run_value e [''log'', ''-1'', ''--format=%H|%aI|%an|%s'', branch]
             = Inr (sha @ CHR ''|'' # date @ CHR ''|'' # who @ CHR ''|'' # last_commit_msg info)"
    by (rule inspect_subject)
next
  show "last_commit_texts (print_text_report a) =
     map (\<lambda>d. take 50 (d_last_commit_msg d)) (stale_branches a)"
    by (rule subjects_report)
next
  fix d assume "50 < length (d_last_commit_msg d)"
  then show "length (take 50 (d_last_commit_msg d)) = 50" by simp
next
  assume m: "main e args w = (Exit_0 (Json_document r), w')"
  then show "arg_json args" using main_json by blast
next
  assume m: "main e args w = (Exit_0 (Json_document r), w')"
  from main_json [OF m] obtain self w0 where
    i: "init e (arg_days args) (arg_remote args) w = (Inr self, w0)" and
    a: "analyze e self w0 = (Inr r, w')" by blast
  from analyze_Inr [OF a] obtain bk w1 where
    "categorize e self w0 = (Inr bk, w1)"
    "map d_last_commit_msg (stale_branches r) = map last_commit_msg (stale_infos bk)"
    "map d_last_commit_msg (active_branches r) = map last_commit_msg (active_infos bk)"
    "map d_last_commit_msg (merged_branches r) = map last_commit_msg (merged_infos bk)"
    by blast
  with i a show "\<exists>self w0 bk w1.
              init e (arg_days args) (arg_remote args) w = (Inr self, w0)
            \<and> analyze e self w0 = (Inr r, w')
            \<and> categorize e self w0 = (Inr bk, w1)
            \<and> map d_last_commit_msg (stale_branches r) = map last_commit_msg (stale_infos bk)
            \<and> map d_last_commit_msg (active_branches r) = map last_commit_msg (active_infos bk)
            \<and> map d_last_commit_msg (merged_branches r) = map last_commit_msg (merged_infos bk)"
    by blast
qed

subsection \<open>Classification by age\<close>

lemma zip_shift:
  "zip bs [k + m ..< k + m + length bs] = map (\<lambda>(b, i). (b, i + m)) (zip bs [k ..< k + length bs])"
proof (induction bs arbitrary: k)
  case Nil
  then show ?case by simp
next
  case (Cons b bs)
  have 1: "[k + m ..< k + m + length (b # bs)] = (k + m) # [Suc k + m ..< Suc k + m + length bs]"
    by (subst upt_rec) simp
  have 2: "[k ..< k + length (b # bs)] = k # [Suc k ..< Suc k + length bs]"
    by (subst upt_rec) simp
  show ?case unfolding 1 2 using Cons.IH [of "Suc k"] by simp
qed

lemma active_as_complement:
  assumes "steady e k bs"
  shows "map fst (filter (\<lambda>(b, i). age_at e i b \<le> sd)
                    (zip bs [k + length bs ..< k + length bs + length bs]))
       = map fst (filter (\<lambda>(b, i). \<not> sd < age_at e i b) (zip bs [k ..< k + length bs]))"
proof -
  let ?zs = "zip bs [k ..< k + length bs]"
  have same: "\<forall>z \<in> set ?zs. (case z of (b, i) \<Rightarrow> age_at e (i + length bs) b \<le> sd)
                            = (case z of (b, i) \<Rightarrow> \<not> sd < age_at e i b)"
    using assms by (auto simp: steady_def list_all_iff)
  have "map fst (filter (\<lambda>(b, i). age_at e i b \<le> sd)
                    (zip bs [k + length bs ..< k + length bs + length bs]))
      = map fst (filter (\<lambda>(b, i). age_at e (i + length bs) b \<le> sd) ?zs)"
    unfolding zip_shift [of bs k "length bs"]
    by (simp add: filter_map comp_def case_prod_unfold)
  also have "\<dots> = map fst (filter (\<lambda>(b, i). \<not> sd < age_at e i b) ?zs)"
    using same by (metis (mono_tags, lifting) filter_cong)
  finally show ?thesis .
qed

lemma split_counts:
  "count_list (map fst (filter P zs)) x + count_list (map fst (filter (\<lambda>z. \<not> P z) zs)) x
   = count_list (map fst zs) x"
  by (induction zs) auto

lemma distinct_count_le_1: "distinct xs \<Longrightarrow> count_list xs x \<le> 1"
  by (induction xs) (auto simp: count_list_0_iff)

lemma map_fst_zip_upt: "map fst (zip bs [k ..< k + length bs]) = bs"
  by simp

lemma steady_constant_clock:
  assumes "\<And>i j. clock e i = clock e j"
  shows "steady e k bs"
proof -
  have "age_at e i b = age_at e j b" for i j b
    using assms [of i j] by (simp add: age_at_def)
  then show ?thesis by (auto simp: steady_def list_all_iff)
qed

lemma partition_when_steady:
  assumes "categorize e self w = (Inr bk, w1)"
    and "analyze e self w = (Inr r, w')"
    and "steady e (clock_reads w) (branch_infos bk)"
  shows "n_stale_branches (summary r) + n_active_branches (summary r) = total_branches (summary r)
       \<and> (\<forall>b. count_list (stale_infos bk) b + count_list (active_infos bk) b
                = count_list (branch_infos bk) b)
       \<and> set (stale_infos bk) \<union> set (active_infos bk) = set (branch_infos bk)
       \<and> (distinct (branch_infos bk) \<longrightarrow> set (stale_infos bk) \<inter> set (active_infos bk) = {})
       \<and> map d_name (stale_branches r) = map name (stale_infos bk)
       \<and> map d_name (active_branches r) = map name (active_infos bk)"
proof -
  let ?bs = "branch_infos bk"
  let ?k = "clock_reads w"
  let ?zs = "zip ?bs [?k ..< ?k + length ?bs]"
  let ?P = "\<lambda>(b, i). stale_days self < age_at e i b"
  from categorize_Inr [OF assms(1)] have
    st: "stale_infos bk = map fst (filter ?P ?zs)" and
    ac0: "active_infos bk = map fst (filter (\<lambda>(b, k). age_at e k b \<le> stale_days self)
               (zip ?bs [?k + length ?bs ..< ?k + length ?bs + length ?bs]))"
    by auto
  have ac: "active_infos bk = map fst (filter (\<lambda>z. \<not> ?P z) ?zs)"
    unfolding ac0 active_as_complement [OF assms(3)] by (simp add: case_prod_unfold)
  have counts: "count_list (stale_infos bk) b + count_list (active_infos bk) b
                = count_list ?bs b" for b
    unfolding st ac using split_counts [of ?P ?zs b] by simp
  have lens: "length (stale_infos bk) + length (active_infos bk) = length ?bs"
    unfolding st ac using sum_length_filter_compl [of ?P ?zs] by simp
  have union: "set (stale_infos bk) \<union> set (active_infos bk) = set ?bs"
  proof (rule set_eqI)
    fix x
    have "x \<in> set ?bs \<longleftrightarrow> count_list ?bs x \<noteq> 0" by (simp add: count_list_0_iff)
    also have "\<dots> \<longleftrightarrow> count_list (stale_infos bk) x \<noteq> 0 \<or> count_list (active_infos bk) x \<noteq> 0"
      using counts [of x] by auto
    also have "\<dots> \<longleftrightarrow> x \<in> set (stale_infos bk) \<union> set (active_infos bk)"
      by (simp add: count_list_0_iff)
    finally show "x \<in> set (stale_infos bk) \<union> set (active_infos bk) \<longleftrightarrow> x \<in> set ?bs" ..
  qed
  have disj: "set (stale_infos bk) \<inter> set (active_infos bk) = {}" if d: "distinct ?bs"
  proof (rule ccontr)
    assume "set (stale_infos bk) \<inter> set (active_infos bk) \<noteq> {}"
    then obtain x where "x \<in> set (stale_infos bk)" "x \<in> set (active_infos bk)" by blast
    then have "count_list (stale_infos bk) x \<noteq> 0" "count_list (active_infos bk) x \<noteq> 0"
      by (simp_all add: count_list_0_iff)
    then have "2 \<le> count_list ?bs x" using counts [of x] by linarith
    then show False using distinct_count_le_1 [OF d, of x] by simp
  qed
  from analyze_Inr [OF assms(2)] assms(1) have
    "total_branches (summary r) = length ?bs"
    "n_stale_branches (summary r) = length (stale_infos bk)"
    "n_active_branches (summary r) = length (active_infos bk)"
    "map d_name (stale_branches r) = map name (stale_infos bk)"
    "map d_name (active_branches r) = map name (active_infos bk)"
    by auto
  with lens counts union disj show ?thesis by simp
qed

subsection \<open>Order of the buckets\<close>

lemma sorted_desc_sort_key:
  "sorted_wrt (\<lambda>a b. f b \<le> f a) (sort_key (\<lambda>x. - f x) xs)" for f :: "'a \<Rightarrow> int"
proof -
  have "sorted (map (\<lambda>x. - f x) (sort_key (\<lambda>x. - f x) xs))" by (rule sorted_sort_key)
  then show ?thesis by (simp add: sorted_map)
qed

lemma stable_desc_sort_key:
  "filter (\<lambda>b. f b = t) (sort_key (\<lambda>x. - f x) xs) = filter (\<lambda>b. f b = t) xs" for f :: "'a \<Rightarrow> int"
  using sort_key_stable [of "\<lambda>x. - f x" "- t" xs] by simp

lemma sorted_wrt_picked:
  assumes "sorted_wrt Q bs"
  shows "sorted_wrt Q (map fst (filter P (zip bs [k ..< k + length bs])))"
proof -
  let ?zs = "zip bs [k ..< k + length bs]"
  have "map fst ?zs = bs" by simp
  then have "sorted_wrt Q (map fst ?zs)" using assms by (simp only:)
  then have "sorted_wrt (\<lambda>x y. Q (fst x) (fst y)) ?zs" by (simp only: sorted_wrt_map)
  then have "sorted_wrt (\<lambda>x y. Q (fst x) (fst y)) (filter P ?zs)" by (rule sorted_wrt_filter)
  then show ?thesis by (simp only: sorted_wrt_map)
qed

lemma subseq_picked: "subseq (map fst (filter P (zip bs [k ..< k + length bs]))) bs"
proof -
  have "subseq (map fst (filter P (zip bs [k ..< k + length bs]))) (map fst (zip bs [k ..< k + length bs]))"
    by (intro subseq_map subseq_filter_left)
  then show ?thesis by simp
qed

subsection \<open>The sample runs\<close>

lemma sample_listing:
  "get_branches (sample_env\<lparr>clock := c\<rparr>) (sample_self\<lparr>stale_days := d\<rparr>) fresh =
     (Inr [''(HEAD detached at c9)'', ''feat'', ''feature-x'', ''feature-y'', ''main'', ''odd''], fresh)"
  by code_simp

lemma sample_collect:
  "collect_infos (sample_env\<lparr>clock := c\<rparr>) (sample_self\<lparr>stale_days := d\<rparr>)
      [''(HEAD detached at c9)'', ''feat'', ''feature-x'', ''feature-y'', ''main'', ''odd''] fresh =
     ([info_feat, info_feature_x, info_feature_y, info_main],
      \<lparr>err_stream = sample_errors, clock_reads = 0\<rparr>)"
  by code_simp

lemma sample_sorted:
  "sort_newest_first [info_feat, info_feature_x, info_feature_y, info_main] =
     Inr [info_main, info_feature_y, info_feat, info_feature_x]"
  by code_simp

lemma sample_env_clock: "sample_env = sample_env\<lparr>clock := (\<lambda>k. 63848779200000000)\<rparr>"
  by (simp add: sample_env_def)

lemma sample_self_days: "sample_self = sample_self\<lparr>stale_days := 30\<rparr>"
  by (simp add: sample_self_def)

lemma zoned_listing:
  "get_branches zoned_env zoned_self fresh =
     (Inr [''(HEAD detached at c9)'', ''feat'', ''feature-x'', ''legacy'', ''main''], fresh)"
  by code_simp

lemma zoned_collect:
  "collect_infos zoned_env zoned_self
      [''(HEAD detached at c9)'', ''feat'', ''feature-x'', ''legacy'', ''main''] fresh =
     ([zoned_feat, zoned_feature_x, zoned_main],
      \<lparr>err_stream = zoned_errors, clock_reads = 0\<rparr>)"
  by code_simp

lemma zoned_sorted:
  "sort_newest_first [zoned_feat, zoned_feature_x, zoned_main] =
     Inr [zoned_main, zoned_feat, zoned_feature_x]"
  by code_simp

lemma zoned_categorize:
  "categorize zoned_env zoned_self fresh =
     (Inl TypeError, \<lparr>err_stream = zoned_errors, clock_reads = 1\<rparr>)"
  apply (simp only: categorize_def zoned_listing zoned_collect zoned_sorted prod.case sum.case)
  apply code_simp
  done

lemma zoned_analyze:
  "analyze zoned_env zoned_self fresh =
     (Inl TypeError, \<lparr>err_stream = zoned_errors, clock_reads = 1\<rparr>)"
  by (simp only: analyze_def zoned_categorize prod.case sum.case)

lemma zoned_init:
  "init zoned_env 30 False fresh = (Inr zoned_self, fresh)"
  by code_simp

lemma zoned_main:
  "main zoned_env \<lparr>arg_days = 30, arg_remote = False, arg_json = j\<rparr> fresh =
     (Exit_1, \<lparr>err_stream = zoned_errors @ [Err_analysis TypeError], clock_reads = 1\<rparr>)"
proof -
  have g: "return_code (git zoned_env [''rev-parse'', ''--git-dir'']) = Some 0"
    by code_simp
  show ?thesis
    by (simp add: main_def g zoned_init zoned_analyze)
qed

lemma detached_listing:
  "get_branches detached_env detached_self fresh =
     (Inr [''(HEAD detached at c9)'', ''legacy''], fresh)"
  by code_simp

lemma detached_categorize:
  "categorize detached_env detached_self fresh =
     (Inr no_buckets,
      \<lparr>err_stream =
         [Err_running [''git'', ''log'', ''-1'', ''--format=%H|%aI|%an|%s'', ''(HEAD detached at c9)''] 128,
          Err_stderr ''fatal: bad revision'',
          Err_branch ''legacy'' UnicodeDecodeError],
       clock_reads = 0\<rparr>)"
  by code_simp

lemma detached_analyze:
  "analyze detached_env detached_self fresh =
     (Inr no_branches,
      \<lparr>err_stream =
         [Err_running [''git'', ''log'', ''-1'', ''--format=%H|%aI|%an|%s'', ''(HEAD detached at c9)''] 128,
          Err_stderr ''fatal: bad revision'',
          Err_branch ''legacy'' UnicodeDecodeError],
       clock_reads = 0\<rparr>)"
  apply (simp only: analyze_def detached_categorize prod.case sum.case)
  apply code_simp
  done

lemma ticking_categorize:
  "categorize ticking_env ticking_self fresh =
     (Inr ticking_buckets, \<lparr>err_stream = sample_errors, clock_reads = 8\<rparr>)"
  unfolding ticking_env_def ticking_self_def
  apply (simp only: categorize_def sample_listing sample_collect sample_sorted prod.case sum.case)
  apply code_simp
  done

lemma clock_race_drops_a_branch:
  "map_option (total_branches \<circ> summary) (returned (analyze ticking_env ticking_self fresh)) = Some 4
   \<and> map_option (n_stale_branches \<circ> summary) (returned (analyze ticking_env ticking_self fresh)) = Some 1
   \<and> map_option (n_active_branches \<circ> summary) (returned (analyze ticking_env ticking_self fresh)) = Some 2
   \<and> map_option (map d_name \<circ> stale_branches) (returned (analyze ticking_env ticking_self fresh))
       = Some [''feature-x'']
   \<and> map_option (map d_name \<circ> active_branches) (returned (analyze ticking_env ticking_self fresh))
       = Some [''main'', ''feature-y'']
   \<and> map_option (map name \<circ> branch_infos) (returned (categorize ticking_env ticking_self fresh))
       = Some [''main'', ''feature-y'', ''feat'', ''feature-x'']"
  apply (simp only: analyze_def ticking_categorize prod.case sum.case)
  apply code_simp
  done



subsection \<open>Newest first\<close>

lemma sort_newest_first_order:
  assumes "sort_newest_first infos = Inr srt"
  shows "sorted_wrt (\<lambda>a b. sort_key_of b \<le> sort_key_of a) srt
       \<and> (\<forall>t. filter (\<lambda>b. sort_key_of b = t) srt = filter (\<lambda>b. sort_key_of b = t) infos)"
  using sort_newest_first_Inr [OF assms] sorted_desc_sort_key [of sort_key_of infos]
    stable_desc_sort_key [of sort_key_of _ infos]
  by simp

lemma buckets_newest_first:
  assumes "get_branches e self w = (Inr branches, w0)"
    and "categorize e self w = (Inr bk, w1)"
    and "analyze e self w = (Inr r, w')"
  shows "(sort_newest_first infos = Inr srt \<longrightarrow>
            sorted_wrt (\<lambda>a b. sort_key_of b \<le> sort_key_of a) srt
          \<and> (\<forall>t. filter (\<lambda>b. sort_key_of b = t) srt = filter (\<lambda>b. sort_key_of b = t) infos))
       \<and> sorted_wrt (\<lambda>a b. sort_key_of b \<le> sort_key_of a) (stale_infos bk)
       \<and> sorted_wrt (\<lambda>a b. sort_key_of b \<le> sort_key_of a) (active_infos bk)
       \<and> sorted_wrt (\<lambda>a b. sort_key_of b \<le> sort_key_of a) (merged_infos bk)
       \<and> (\<forall>b \<in> set (branch_infos bk). sort_key_of b = wall_us (last_commit_date b))
       \<and> subseq (stale_infos bk) (branch_infos bk)
       \<and> subseq (active_infos bk) (branch_infos bk)
       \<and> subseq (merged_infos bk) (branch_infos bk)
       \<and> (\<forall>t. filter (\<lambda>b. sort_key_of b = t) (branch_infos bk)
              = filter (\<lambda>b. sort_key_of b = t) (List.map_filter (inspect e self) branches))
       \<and> map d_name (stale_branches r) = map name (stale_infos bk)
       \<and> map d_name (active_branches r) = map name (active_infos bk)
       \<and> map d_name (merged_branches r) = map name (merged_infos bk)
       \<and> map d_last_commit_date (stale_branches r)
           = map (\<lambda>b. isoformat e (last_commit_date b)) (stale_infos bk)
       \<and> map d_last_commit_date (active_branches r)
           = map (\<lambda>b. isoformat e (last_commit_date b)) (active_infos bk)
       \<and> map d_last_commit_date (merged_branches r)
           = map (\<lambda>b. isoformat e (last_commit_date b)) (merged_infos bk)"
proof -
  let ?Q = "\<lambda>a b. sort_key_of b \<le> sort_key_of a"
  let ?bs = "branch_infos bk"
  from categorize_Inr [OF assms(2)] assms(1) have
    bs: "?bs = sort_key (\<lambda>b. - sort_key_of b) (List.map_filter (inspect e self) branches)" and
    nv: "list_all naive ?bs" and
    st: "stale_infos bk = map fst (filter (\<lambda>(b, k). stale_days self < age_at e k b)
               (zip ?bs [clock_reads w ..< clock_reads w + length ?bs]))" and
    ac: "active_infos bk = map fst (filter (\<lambda>(b, k). age_at e k b \<le> stale_days self)
               (zip ?bs [clock_reads w + length ?bs ..< clock_reads w + length ?bs + length ?bs]))" and
    me: "merged_infos bk = filter is_merged ?bs"
    by auto
  have sorted_all: "sorted_wrt ?Q ?bs"
    unfolding bs by (rule sorted_desc_sort_key)
  have 1: "sorted_wrt ?Q (stale_infos bk)"
    unfolding st using sorted_all by (rule sorted_wrt_picked)
  have 2: "sorted_wrt ?Q (active_infos bk)"
    unfolding ac using sorted_all by (rule sorted_wrt_picked)
  have 3: "sorted_wrt ?Q (merged_infos bk)"
    unfolding me using sorted_all by (rule sorted_wrt_filter)
  have 4: "\<forall>b \<in> set ?bs. sort_key_of b = wall_us (last_commit_date b)"
    using nv by (auto simp: list_all_iff naive_def sort_key_of_def instant_def)
  have 5: "subseq (stale_infos bk) ?bs" unfolding st by (rule subseq_picked)
  have 6: "subseq (active_infos bk) ?bs" unfolding ac by (rule subseq_picked)
  have 7: "subseq (merged_infos bk) ?bs" unfolding me by simp
  have 8: "\<forall>t. filter (\<lambda>b. sort_key_of b = t) ?bs
              = filter (\<lambda>b. sort_key_of b = t) (List.map_filter (inspect e self) branches)"
    unfolding bs by (simp add: stable_desc_sort_key)
  from analyze_Inr [OF assms(3)] assms(2) have
    "map d_name (stale_branches r) = map name (stale_infos bk)"
    "map d_name (active_branches r) = map name (active_infos bk)"
    "map d_name (merged_branches r) = map name (merged_infos bk)"
    "map d_last_commit_date (stale_branches r)
           = map (\<lambda>b. isoformat e (last_commit_date b)) (stale_infos bk)"
    "map d_last_commit_date (active_branches r)
           = map (\<lambda>b. isoformat e (last_commit_date b)) (active_infos bk)"
    "map d_last_commit_date (merged_branches r)
           = map (\<lambda>b. isoformat e (last_commit_date b)) (merged_infos bk)"
    by auto
  moreover have "sort_newest_first infos = Inr srt \<longrightarrow>
            sorted_wrt ?Q srt
          \<and> (\<forall>t. filter (\<lambda>b. sort_key_of b = t) srt = filter (\<lambda>b. sort_key_of b = t) infos)"
    using sort_newest_first_order by blast
  ultimately show ?thesis using 1 2 3 4 5 6 7 8 by (simp only: simp_thms)
qed


subsection \<open>Branches without a record\<close>

lemma length_map_filter:
  "length (List.map_filter f xs) = length (filter (\<lambda>x. f x \<noteq> None) xs)"
  by (simp add: List.map_filter_def)

lemma names_of_inspected:
  "name ` set (List.map_filter (inspect e self) bs) = {b \<in> set bs. inspect e self b \<noteq> None}"
proof -
  have n: "name y = b" if "inspect e self b = Some y" for b y
    using that inspect_Some [of e self b y] by simp
  show ?thesis
  proof (rule set_eqI)
    fix x
    show "x \<in> name ` set (List.map_filter (inspect e self) bs)
          \<longleftrightarrow> x \<in> {b \<in> set bs. inspect e self b \<noteq> None}"
    proof
      assume "x \<in> name ` set (List.map_filter (inspect e self) bs)"
      then obtain b y where "b \<in> set bs" "inspect e self b = Some y" "x = name y"
        by (auto simp: List.map_filter_def)
      then show "x \<in> {b \<in> set bs. inspect e self b \<noteq> None}" using n by auto
    next
      assume "x \<in> {b \<in> set bs. inspect e self b \<noteq> None}"
      then obtain y where "x \<in> set bs" "inspect e self x = Some y" by auto
      then have "y \<in> set (List.map_filter (inspect e self) bs)" "name y = x"
        using n by (auto simp: List.map_filter_def image_iff intro: bexI [of _ x])
      then show "x \<in> name ` set (List.map_filter (inspect e self) bs)" by blast
    qed
  qed
qed

lemma picked_subset: "set (map fst (filter P (zip bs idx))) \<subseteq> set bs"
  by (auto dest: set_zip_leftD)

lemma buckets_subset:
  assumes "categorize e self w = (Inr bk, w1)"
  shows "set (stale_infos bk) \<subseteq> set (branch_infos bk)
       \<and> set (active_infos bk) \<subseteq> set (branch_infos bk)
       \<and> set (merged_infos bk) \<subseteq> set (branch_infos bk)"
proof -
  from categorize_Inr [OF assms] have
    st: "stale_infos bk = map fst (filter (\<lambda>(b, k). stale_days self < age_at e k b)
               (zip (branch_infos bk) [clock_reads w ..< clock_reads w + length (branch_infos bk)]))" and
    ac: "active_infos bk = map fst (filter (\<lambda>(b, k). age_at e k b \<le> stale_days self)
               (zip (branch_infos bk) [clock_reads w + length (branch_infos bk)
                     ..< clock_reads w + length (branch_infos bk) + length (branch_infos bk)]))" and
    me: "merged_infos bk = filter is_merged (branch_infos bk)"
    by auto
  have 1: "set (stale_infos bk) \<subseteq> set (branch_infos bk)"
    by (subst st) (rule picked_subset)
  have 2: "set (active_infos bk) \<subseteq> set (branch_infos bk)"
    by (subst ac) (rule picked_subset)
  have 3: "set (merged_infos bk) \<subseteq> set (branch_infos bk)"
    by (subst me) simp
  from 1 2 3 show ?thesis by simp
qed

text \<open>
  Claim C6. A branch whose log query yields no output gets no record, and nothing but
  the lines of the command runner is printed for it. A branch whose inspection raises
  an exception gets no record, and the exception is printed on the error stream. The
  collecting loop inspects every name of its list, whatever the earlier ones gave, and
  keeps the records of all others: a branch without a record is not among the collected
  records, from which the buckets and the total count are taken. In a run that returns
  a result such a branch is in none of the three buckets and is not counted in the
  total.
\<close>

theorem C6_failed_inspection_is_skipped:
  "(run_value e [''log'', ''-1'', ''--format=%H|%aI|%an|%s'', branch] = Inr [] \<longrightarrow>
      get_branch_info e self branch v =
        (None, v\<lparr>err_stream := err_stream v @
                     run_log e [''log'', ''-1'', ''--format=%H|%aI|%an|%s'', branch]\<rparr>)
      \<and> Err_branch branch ex \<notin> set (run_log e [''log'', ''-1'', ''--format=%H|%aI|%an|%s'', branch]))
   \<and> (get_branch_info_try e self branch v = (Inl ex, v1) \<longrightarrow>
        get_branch_info e self branch v =
          (None, v1\<lparr>err_stream := err_stream v1 @ [Err_branch branch ex]\<rparr>))
   \<and> fst (collect_infos e self names v) = List.map_filter (inspect e self) names
   \<and> name ` set (fst (collect_infos e self names v)) = {b \<in> set names. inspect e self b \<noteq> None}
   \<and> (inspect e self branch = None \<longrightarrow>
        branch \<notin> name ` set (fst (collect_infos e self names v)))
   \<and> (get_branches e self w = (Inr branches, w0)
        \<and> categorize e self w = (Inr bk, w1)
        \<and> analyze e self w = (Inr r, w')
        \<and> inspect e self branch = None \<longrightarrow>
          branch \<notin> name ` set (branch_infos bk)
        \<and> branch \<notin> set (map d_name (stale_branches r))
        \<and> branch \<notin> set (map d_name (active_branches r))
        \<and> branch \<notin> set (map d_name (merged_branches r))
        \<and> total_branches (summary r) = length (filter (\<lambda>b. inspect e self b \<noteq> None) branches)
        \<and> name ` set (branch_infos bk) = {b \<in> set branches. inspect e self b \<noteq> None})"
proof -
  let ?log = "[''log'', ''-1'', ''--format=%H|%aI|%an|%s'', branch]"
  have a: "get_branch_info e self branch v =
              (None, v\<lparr>err_stream := err_stream v @ run_log e ?log\<rparr>)"
    if "run_value e ?log = Inr []"
    using that
    by (simp add: get_branch_info_def get_branch_info_try_def gather_info_def run_git_command_eq)
  have a': "Err_branch branch ex \<notin> set (run_log e ?log)"
    by (simp add: run_log_def split: proc_outcome.splits)
  have b: "get_branch_info e self branch v =
              (None, v1\<lparr>err_stream := err_stream v1 @ [Err_branch branch ex]\<rparr>)"
    if "get_branch_info_try e self branch v = (Inl ex, v1)"
    using that by (simp add: get_branch_info_def)
  have loop: "fst (collect_infos e self names v) = List.map_filter (inspect e self) names"
    by (rule collect_infos_value)
  have kept: "name ` set (fst (collect_infos e self names v))
      = {b \<in> set names. inspect e self b \<noteq> None}"
    unfolding loop by (rule names_of_inspected)
  have c: "branch \<notin> name ` set (fst (collect_infos e self names v))"
    if "inspect e self branch = None"
    unfolding kept using that by simp
  have d: "branch \<notin> name ` set (branch_infos bk)
        \<and> branch \<notin> set (map d_name (stale_branches r))
        \<and> branch \<notin> set (map d_name (active_branches r))
        \<and> branch \<notin> set (map d_name (merged_branches r))
        \<and> total_branches (summary r) = length (filter (\<lambda>b. inspect e self b \<noteq> None) branches)
        \<and> name ` set (branch_infos bk) = {b \<in> set branches. inspect e self b \<noteq> None}"
    if g: "get_branches e self w = (Inr branches, w0)"
      and cat: "categorize e self w = (Inr bk, w1)"
      and an: "analyze e self w = (Inr r, w')"
      and none: "inspect e self branch = None"
  proof -
    from categorize_Inr [OF cat] g have
      bs: "branch_infos bk = sort_key (\<lambda>b. - sort_key_of b) (List.map_filter (inspect e self) branches)"
      by auto
    have names: "name ` set (branch_infos bk) = {b \<in> set branches. inspect e self b \<noteq> None}"
      unfolding bs by (simp add: names_of_inspected)
    have len: "length (branch_infos bk) = length (filter (\<lambda>b. inspect e self b \<noteq> None) branches)"
      unfolding bs by (simp add: length_map_filter)
    from analyze_Inr [OF an] cat have
      tot: "total_branches (summary r) = length (branch_infos bk)" and
      n1: "map d_name (stale_branches r) = map name (stale_infos bk)" and
      n2: "map d_name (active_branches r) = map name (active_infos bk)" and
      n3: "map d_name (merged_branches r) = map name (merged_infos bk)"
      by auto
    note sub = buckets_subset [OF cat]
    have out: "branch \<notin> name ` set (branch_infos bk)" using none names by auto
    with sub have "branch \<notin> set (map d_name (stale_branches r))
        \<and> branch \<notin> set (map d_name (active_branches r))
        \<and> branch \<notin> set (map d_name (merged_branches r))"
      unfolding n1 n2 n3 by auto
    with out tot len names show ?thesis by simp
  qed
  show ?thesis using a a' b loop kept c d by (simp only: simp_thms) blast
qed

theorem C6_witness:
  "run_value zoned_env [''log'', ''-1'', ''--format=%H|%aI|%an|%s'', ''(HEAD detached at c9)''] = Inr []
   \<and> get_branch_info zoned_env zoned_self ''(HEAD detached at c9)'' fresh =
       (None, fresh\<lparr>err_stream := err_stream fresh @
          run_log zoned_env [''log'', ''-1'', ''--format=%H|%aI|%an|%s'', ''(HEAD detached at c9)'']\<rparr>)
   \<and> run_log zoned_env [''log'', ''-1'', ''--format=%H|%aI|%an|%s'', ''(HEAD detached at c9)''] =
       [Err_running [''git'', ''log'', ''-1'', ''--format=%H|%aI|%an|%s'', ''(HEAD detached at c9)''] 128,
        Err_stderr ''fatal: bad revision'']
   \<and> get_branch_info_try zoned_env zoned_self ''legacy'' fresh = (Inl UnicodeDecodeError, fresh)
   \<and> get_branch_info zoned_env zoned_self ''legacy'' fresh =
       (None, fresh\<lparr>err_stream := err_stream fresh @ [Err_branch ''legacy'' UnicodeDecodeError]\<rparr>)
   \<and> inspect zoned_env zoned_self ''legacy'' = None
   \<and> fst (collect_infos zoned_env zoned_self
        [''(HEAD detached at c9)'', ''feat'', ''feature-x'', ''legacy'', ''main''] fresh)
       = [zoned_feat, zoned_feature_x, zoned_main]
   \<and> List.map_filter (inspect zoned_env zoned_self)
        [''(HEAD detached at c9)'', ''feat'', ''feature-x'', ''legacy'', ''main'']
       = [zoned_feat, zoned_feature_x, zoned_main]
   \<and> ''legacy'' \<notin> name ` set [zoned_feat, zoned_feature_x, zoned_main]
   \<and> get_branches detached_env detached_self fresh =
       (Inr [''(HEAD detached at c9)'', ''legacy''], fresh)
   \<and> fst (categorize detached_env detached_self fresh) = Inr no_buckets
   \<and> fst (analyze detached_env detached_self fresh) = Inr no_branches
   \<and> inspect detached_env detached_self ''legacy'' = None
   \<and> ''legacy'' \<notin> name ` set (branch_infos no_buckets)
   \<and> ''legacy'' \<notin> set (map d_name (stale_branches no_branches))
   \<and> ''legacy'' \<notin> set (map d_name (active_branches no_branches))
   \<and> ''legacy'' \<notin> set (map d_name (merged_branches no_branches))
   \<and> total_branches (summary no_branches) =
       length (filter (\<lambda>b. inspect detached_env detached_self b \<noteq> None)
         [''(HEAD detached at c9)'', ''legacy''])
   \<and> total_branches (summary no_branches) = 0"
proof -
  have silent: "run_value zoned_env
      [''log'', ''-1'', ''--format=%H|%aI|%an|%s'', ''(HEAD detached at c9)''] = Inr []"
    by code_simp
  have lines: "run_log zoned_env [''log'', ''-1'', ''--format=%H|%aI|%an|%s'', ''(HEAD detached at c9)''] =
       [Err_running [''git'', ''log'', ''-1'', ''--format=%H|%aI|%an|%s'', ''(HEAD detached at c9)''] 128,
        Err_stderr ''fatal: bad revision'']"
    by code_simp
  have raised: "get_branch_info_try zoned_env zoned_self ''legacy'' fresh = (Inl UnicodeDecodeError, fresh)"
    by code_simp
  have none: "inspect zoned_env zoned_self ''legacy'' = None"
    by code_simp
  have none': "inspect detached_env detached_self ''legacy'' = None"
    by code_simp
  have zero: "total_branches (summary no_branches) = 0"
    by code_simp
  have coll: "fst (collect_infos zoned_env zoned_self
        [''(HEAD detached at c9)'', ''feat'', ''feature-x'', ''legacy'', ''main''] fresh)
       = [zoned_feat, zoned_feature_x, zoned_main]"
    by (simp only: zoned_collect fst_conv)
  note z1 = C6_failed_inspection_is_skipped
    [of zoned_env "''(HEAD detached at c9)''" zoned_self fresh UnicodeDecodeError fresh
        "[''(HEAD detached at c9)'', ''feat'', ''feature-x'', ''legacy'', ''main'']"]
  note z2 = C6_failed_inspection_is_skipped
    [of zoned_env "''legacy''" zoned_self fresh UnicodeDecodeError fresh
        "[''(HEAD detached at c9)'', ''feat'', ''feature-x'', ''legacy'', ''main'']"]
  note d = C6_failed_inspection_is_skipped
    [of detached_env "''legacy''" detached_self fresh UnicodeDecodeError fresh
        "[''(HEAD detached at c9)'', ''legacy'']" fresh
        "[''(HEAD detached at c9)'', ''legacy'']" fresh no_buckets
        "snd (categorize detached_env detached_self fresh)" no_branches
        "snd (analyze detached_env detached_self fresh)"]
  have cat: "categorize detached_env detached_self fresh =
      (Inr no_buckets, snd (categorize detached_env detached_self fresh))"
    by (simp only: detached_categorize fst_conv snd_conv)
  have an: "analyze detached_env detached_self fresh =
      (Inr no_branches, snd (analyze detached_env detached_self fresh))"
    by (simp only: detached_analyze fst_conv snd_conv)
  have p1: "get_branch_info zoned_env zoned_self ''(HEAD detached at c9)'' fresh =
       (None, fresh\<lparr>err_stream := err_stream fresh @
          run_log zoned_env [''log'', ''-1'', ''--format=%H|%aI|%an|%s'', ''(HEAD detached at c9)'']\<rparr>)"
    using z1 silent by blast
  have p2: "get_branch_info zoned_env zoned_self ''legacy'' fresh =
       (None, fresh\<lparr>err_stream := err_stream fresh @ [Err_branch ''legacy'' UnicodeDecodeError]\<rparr>)"
    using z2 raised by blast
  have e3: "fst (collect_infos zoned_env zoned_self
        [''(HEAD detached at c9)'', ''feat'', ''feature-x'', ''legacy'', ''main''] fresh)
       = List.map_filter (inspect zoned_env zoned_self)
           [''(HEAD detached at c9)'', ''feat'', ''feature-x'', ''legacy'', ''main'']"
    using z2 by blast
  have p3: "List.map_filter (inspect zoned_env zoned_self)
        [''(HEAD detached at c9)'', ''feat'', ''feature-x'', ''legacy'', ''main'']
       = [zoned_feat, zoned_feature_x, zoned_main]"
    unfolding e3 [symmetric] by (rule coll)
  have e4: "''legacy'' \<notin> name ` set (fst (collect_infos zoned_env zoned_self
        [''(HEAD detached at c9)'', ''feat'', ''feature-x'', ''legacy'', ''main''] fresh))"
    using z2 none by blast
  have p4: "''legacy'' \<notin> name ` set [zoned_feat, zoned_feature_x, zoned_main]"
    using e4 unfolding coll .
  have p5: "''legacy'' \<notin> name ` set (branch_infos no_buckets)
   \<and> ''legacy'' \<notin> set (map d_name (stale_branches no_branches))
   \<and> ''legacy'' \<notin> set (map d_name (active_branches no_branches))
   \<and> ''legacy'' \<notin> set (map d_name (merged_branches no_branches))
   \<and> total_branches (summary no_branches) =
       length (filter (\<lambda>b. inspect detached_env detached_self b \<noteq> None)
         [''(HEAD detached at c9)'', ''legacy''])"
    using d detached_listing cat an none' by blast
  show ?thesis
    using silent lines raised none none' zero coll p1 p2 p3 p4 p5 detached_listing
      detached_categorize detached_analyze
    by (simp only: simp_thms fst_conv)
qed

subsection \<open>Ahead and behind\<close>

lemma gather_then_step:
  assumes "fst (gather_info e self branch w) = Inr (Some info)"
  shows "inspect e self branch =
           (if branch \<noteq> default_branch self
            then Some (info\<lparr>ahead_behind := fst (ahead_behind_step e self branch w)\<rparr>)
            else Some info)"
proof -
  obtain w1 where g: "gather_info e self branch fresh = (Inr (Some info), w1)"
    using assms gather_info_value [of e self branch fresh w]
    by (cases "gather_info e self branch fresh") simp
  obtain ab w2 where s: "ahead_behind_step e self branch w1 = (ab, w2)"
    by (cases "ahead_behind_step e self branch w1")
  have "fst (ahead_behind_step e self branch w1) = fst (ahead_behind_step e self branch w)"
    by (rule ahead_behind_step_value)
  then have "fst (ahead_behind_step e self branch w) = ab" using s by simp
  then show ?thesis
    by (simp add: inspect_def fresh_def [symmetric] get_branch_info_def get_branch_info_try_def g s)
qed

text \<open>
  Claim C7. For a branch other than the default branch whose record has been built, the
  output of the count query is split at whitespace into the texts "behind" and "ahead",
  in this order, and the pair (ahead, behind) of their integer values is stored. When
  the query cannot be started, prints nothing, does not print exactly two texts or prints
  a text that is not an integer, the pair stays None and the record is still returned.
  For the default branch the query is not made and the pair is None.
\<close>

theorem C7_ahead_behind:
  assumes "fst (gather_info e self branch w) = Inr (Some info)"
  shows "(branch = default_branch self \<longrightarrow>
            inspect e self branch = Some info \<and> ahead_behind info = None)
       \<and> (branch \<noteq> default_branch self \<longrightarrow>
            run_value e (ahead_behind_args self branch) = Inr out \<longrightarrow>
            split_ws out = [behind_text, ahead_text] \<longrightarrow>
            py_int e behind_text = Some behind \<longrightarrow>
            py_int e ahead_text = Some ahead \<longrightarrow>
            inspect e self branch = Some (info\<lparr>ahead_behind := Some (ahead, behind)\<rparr>))
       \<and> (branch \<noteq> default_branch self \<longrightarrow>
            (run_value e (ahead_behind_args self branch) = Inl ex
             \<or> run_value e (ahead_behind_args self branch) = Inr out
               \<and> (length (split_ws out) \<noteq> 2 \<or> (\<exists>t \<in> set (split_ws out). py_int e t = None))) \<longrightarrow>
            inspect e self branch = Some (info\<lparr>ahead_behind := None\<rparr>))"
proof (intro conjI impI)
  assume "branch = default_branch self"
  then show "inspect e self branch = Some info" using gather_then_step [OF assms] by simp
next
  obtain w1 where "gather_info e self branch w = (Inr (Some info), w1)"
    using assms by (cases "gather_info e self branch w") simp
  then show "ahead_behind info = None" using gather_info_Some by blast
next
  assume "branch \<noteq> default_branch self"
    and "run_value e (ahead_behind_args self branch) = Inr out"
    and "split_ws out = [behind_text, ahead_text]"
    and "py_int e behind_text = Some behind"
    and "py_int e ahead_text = Some ahead"
  moreover from this have "out \<noteq> []" by (auto simp: split_ws_def)
  ultimately show "inspect e self branch = Some (info\<lparr>ahead_behind := Some (ahead, behind)\<rparr>)"
    using gather_then_step [OF assms]
    by (simp add: ahead_behind_step_def ahead_behind_try_def run_git_command_eq)
next
  assume ne: "branch \<noteq> default_branch self"
    and fail: "run_value e (ahead_behind_args self branch) = Inl ex
             \<or> run_value e (ahead_behind_args self branch) = Inr out
               \<and> (length (split_ws out) \<noteq> 2 \<or> (\<exists>t \<in> set (split_ws out). py_int e t = None))"
  have "fst (ahead_behind_step e self branch w) = None"
    using fail
    by (auto simp: ahead_behind_step_def ahead_behind_try_def run_git_command_eq
        split: list.splits option.splits)
  then show "inspect e self branch = Some (info\<lparr>ahead_behind := None\<rparr>)"
    using gather_then_step [OF assms] ne by simp
qed

theorem C7_witness:
  "fst (gather_info sample_env sample_self ''feat'' fresh) = Inr (Some (info_feat\<lparr>ahead_behind := None\<rparr>))
   \<and> ''feat'' \<noteq> default_branch sample_self
   \<and> run_value sample_env (ahead_behind_args sample_self ''feat'') = Inr (''5'' @ [CHR 0x09] @ ''2'')
   \<and> split_ws (''5'' @ [CHR 0x09] @ ''2'') = [''5'', ''2'']
   \<and> py_int sample_env ''5'' = Some 5
   \<and> py_int sample_env ''2'' = Some 2
   \<and> inspect sample_env sample_self ''feat''
       = Some (info_feat\<lparr>ahead_behind := None, ahead_behind := Some (2, 5)\<rparr>)
   \<and> fst (gather_info sample_env sample_self ''feature-x'' fresh) = Inr (Some info_feature_x)
   \<and> ''feature-x'' \<noteq> default_branch sample_self
   \<and> run_value sample_env (ahead_behind_args sample_self ''feature-x'') = Inr ''4 0 0''
   \<and> length (split_ws ''4 0 0'') \<noteq> 2
   \<and> inspect sample_env sample_self ''feature-x'' = Some (info_feature_x\<lparr>ahead_behind := None\<rparr>)
   \<and> fst (gather_info sample_env sample_self ''main'' fresh) = Inr (Some info_main)
   \<and> ''main'' = default_branch sample_self
   \<and> inspect sample_env sample_self ''main'' = Some info_main
   \<and> ahead_behind info_main = None"
proof -
  have g1: "fst (gather_info sample_env sample_self ''feat'' fresh)
            = Inr (Some (info_feat\<lparr>ahead_behind := None\<rparr>))"
    by code_simp
  have n1: "''feat'' \<noteq> default_branch sample_self" by code_simp
  have r1: "run_value sample_env (ahead_behind_args sample_self ''feat'')
            = Inr (''5'' @ [CHR 0x09] @ ''2'')"
    by code_simp
  have s1: "split_ws (''5'' @ [CHR 0x09] @ ''2'') = [''5'', ''2'']" by code_simp
  have b1: "py_int sample_env ''5'' = Some 5" by code_simp
  have a1: "py_int sample_env ''2'' = Some 2" by code_simp
  have g2: "fst (gather_info sample_env sample_self ''feature-x'' fresh) = Inr (Some info_feature_x)"
    by code_simp
  have n2: "''feature-x'' \<noteq> default_branch sample_self" by code_simp
  have r2: "run_value sample_env (ahead_behind_args sample_self ''feature-x'') = Inr ''4 0 0''"
    by code_simp
  have s2: "length (split_ws ''4 0 0'') \<noteq> 2" by code_simp
  have g3: "fst (gather_info sample_env sample_self ''main'' fresh) = Inr (Some info_main)"
    by code_simp
  have n3: "''main'' = default_branch sample_self" by code_simp
  from C7_ahead_behind [OF g1, of "''5'' @ [CHR 0x09] @ ''2''" "''5''" "''2''" 5 2] n1 r1 s1 b1 a1
  have c1: "inspect sample_env sample_self ''feat''
       = Some (info_feat\<lparr>ahead_behind := None, ahead_behind := Some (2, 5)\<rparr>)"
    by blast
  from C7_ahead_behind [OF g2, of "''4 0 0''" _ _ _ _ ValueError] n2 r2 s2
  have c2: "inspect sample_env sample_self ''feature-x'' = Some (info_feature_x\<lparr>ahead_behind := None\<rparr>)"
    by blast
  from C7_ahead_behind [OF g3] n3
  have c3: "inspect sample_env sample_self ''main'' = Some info_main \<and> ahead_behind info_main = None"
    by blast
  show ?thesis
    using g1 n1 r1 s1 b1 a1 c1 g2 n2 r2 s2 c2 g3 n3 c3 by (simp only: simp_thms)
qed

subsection \<open>The merge check\<close>

lemma split_where_nonempty: "split_where p s \<noteq> []"
  by (induction s) (auto split: list.splits)

lemma isspace_newline: "isspace newline"
  by (simp add: isspace_def newline_def)

lemma first_token_prefix:
  "prefix (hd (split_where isspace s)) (hd (split_where (\<lambda>c. c = newline) s))"
proof (induction s)
  case Nil
  then show ?case by simp
next
  case (Cons c cs)
  obtain p ps where P: "split_where isspace cs = p # ps"
    using split_where_nonempty [of isspace cs] by (cases "split_where isspace cs") auto
  obtain l ls where L: "split_where (\<lambda>c. c = newline) cs = l # ls"
    using split_where_nonempty [of "\<lambda>c. c = newline" cs]
    by (cases "split_where (\<lambda>c. c = newline) cs") auto
  show ?case
    using Cons.IH isspace_newline by (auto simp: P L)
qed

lemma token_in_line:
  assumes "t \<in> set (split_where isspace s)" "t \<noteq> []"
  shows "\<exists>l \<in> set (split_where (\<lambda>c. c = newline) s). sublist t l"
  using assms
proof (induction s arbitrary: t)
  case Nil
  then show ?case by simp
next
  case (Cons c cs)
  obtain p ps where P: "split_where isspace cs = p # ps"
    using split_where_nonempty [of isspace cs] by (cases "split_where isspace cs") auto
  obtain l ls where L: "split_where (\<lambda>c. c = newline) cs = l # ls"
    using split_where_nonempty [of "\<lambda>c. c = newline" cs]
    by (cases "split_where (\<lambda>c. c = newline) cs") auto
  have pre: "prefix p l" using first_token_prefix [of cs] by (simp add: P L)
  have rest: "\<exists>l' \<in> set (split_where (\<lambda>c. c = newline) (c # cs)). sublist t l'"
    if "t \<in> set (p # ps)"
  proof -
    from Cons.IH [of t] that Cons.prems(2) obtain l' where
      l': "l' \<in> set (l # ls)" "sublist t l'" by (auto simp: P L)
    show ?thesis
    proof (cases "l' = l")
      case True
      then have "sublist t (c # l)" using l' by (auto simp: sublist_Cons_right)
      then show ?thesis using l' True by (auto simp: L)
    next
      case False
      then show ?thesis using l' by (auto simp: L)
    qed
  qed
  show ?case
  proof (cases "isspace c")
    case True
    then have "t \<in> set (p # ps)" using Cons.prems by (auto simp: P)
    then show ?thesis by (rule rest)
  next
    case False
    then have nl: "c \<noteq> newline" using isspace_newline by auto
    from Cons.prems False have "t = c # p \<or> t \<in> set ps" by (auto simp: P)
    then show ?thesis
    proof
      assume "t = c # p"
      then have "sublist t (c # l)" using pre by (auto intro: prefix_imp_sublist)
      then show ?thesis using nl by (auto simp: L)
    next
      assume "t \<in> set ps"
      then have "t \<in> set (p # ps)" by simp
      then show ?thesis by (rule rest)
    qed
  qed
qed

lemma whole_token_occurs:
  "whole_token_of_listing branch listing \<Longrightarrow> occurs_in_listing branch listing"
  using token_in_line [of branch listing]
  by (auto simp: whole_token_of_listing_def occurs_in_listing_def split_ws_def split_on_def
      str_in_def list_ex_iff)

lemma paired_maps:
  assumes "map f xs = map g ys" "map f2 xs = map g2 ys" "x \<in> set xs"
  shows "\<exists>y \<in> set ys. f x = g y \<and> f2 x = g2 y"
proof -
  from assms(3) obtain i where i: "i < length xs" "xs ! i = x" by (auto simp: in_set_conv_nth)
  have len: "length xs = length ys" using assms(1) by (rule map_eq_imp_length_eq)
  have "f x = g (ys ! i)" using i len assms(1) by (metis nth_map)
  moreover have "f2 x = g2 (ys ! i)" using i len assms(2) by (metis nth_map)
  ultimately show ?thesis using i len by (auto intro: bexI [of _ "ys ! i"])
qed

lemma analysed_record:
  assumes "categorize e self w = (Inr bk, w1)" "b \<in> set (branch_infos bk)"
  shows "inspect e self (name b) = Some b"
proof -
  from categorize_Inr [OF assms(1)] obtain branches where
    "branch_infos bk = sort_key (\<lambda>b. - sort_key_of b) (List.map_filter (inspect e self) branches)"
    by auto
  with assms(2) obtain b' where "inspect e self b' = Some b"
    by (auto simp: List.map_filter_def)
  then show ?thesis using inspect_Some [of e self b' b] by simp
qed

lemma merged_flag_is_substring_test:
  "(inspect e self branch = Some info \<longrightarrow>
      (is_merged info \<longleftrightarrow>
         (\<exists>line \<in> set (split_on newline (merged_listing e self)). str_in branch line)))
   \<and> (analyze e self w = (Inr r, w') \<longrightarrow>
        (\<forall>d \<in> set (merged_branches r).
           d_is_merged d
           \<and> (\<exists>line \<in> set (split_on newline (merged_listing e self)). str_in (d_name d) line)))
   \<and> (inspect e self branch = Some info \<longrightarrow>
        whole_token_of_listing branch (merged_listing e self) \<longrightarrow> is_merged info)"
proof (intro conjI impI ballI)
  assume "inspect e self branch = Some info"
  then show "is_merged info \<longleftrightarrow>
         (\<exists>line \<in> set (split_on newline (merged_listing e self)). str_in branch line)"
    using inspect_Some [of e self branch info] by (simp add: occurs_in_listing_def list_ex_iff)
next
  fix d
  assume a: "analyze e self w = (Inr r, w')" and d: "d \<in> set (merged_branches r)"
  from analyze_Inr [OF a] obtain bk w1 where
    c: "categorize e self w = (Inr bk, w1)" and
    n: "map d_name (merged_branches r) = map name (merged_infos bk)" and
    m: "map d_is_merged (merged_branches r) = map is_merged (merged_infos bk)"
    by blast
  from paired_maps [OF n m d] obtain b where
    b: "b \<in> set (merged_infos bk)" "d_name d = name b" "d_is_merged d = is_merged b" by blast
  from categorize_Inr [OF c] have "merged_infos bk = filter is_merged (branch_infos bk)" by auto
  with b have bm: "is_merged b" "b \<in> set (branch_infos bk)" by auto
  from analysed_record [OF c bm(2)] have "inspect e self (name b) = Some b" .
  then have "is_merged b = occurs_in_listing (name b) (merged_listing e self)"
    using inspect_Some by blast
  with bm b show "d_is_merged d" and
    "\<exists>line \<in> set (split_on newline (merged_listing e self)). str_in (d_name d) line"
    by (simp_all add: occurs_in_listing_def list_ex_iff)
next
  assume "inspect e self branch = Some info"
    and "whole_token_of_listing branch (merged_listing e self)"
  then show "is_merged info"
    using inspect_Some [of e self branch info] whole_token_occurs by simp
qed

text \<open>
  Claim C1, on a name that is part of a longer one. In the repository \<open>zoned_env\<close> the
  listing of the branches merged into main holds the two names feature-x and main. The
  branch feat is two commits ahead of main and is no token of the listing, but its name
  occurs inside the line of feature-x: its record is flagged as merged.
\<close>

theorem C1_unmerged_branch_is_flagged:
  "merged_listing zoned_env zoned_self = ''feature-x\<newline>  main''
   \<and> split_ws (merged_listing zoned_env zoned_self) = [''feature-x'', ''main'']
   \<and> \<not> whole_token_of_listing ''feat'' (merged_listing zoned_env zoned_self)
   \<and> occurs_in_listing ''feat'' (merged_listing zoned_env zoned_self)
   \<and> inspect zoned_env zoned_self ''feat'' = Some zoned_feat
   \<and> ahead_behind zoned_feat = Some (2, 5)
   \<and> is_merged zoned_feat
   \<and> whole_token_of_listing ''feature-x'' (merged_listing zoned_env zoned_self)
   \<and> map_option is_merged (inspect zoned_env zoned_self ''feature-x'') = Some True"
proof -
  have 1: "merged_listing zoned_env zoned_self = ''feature-x\<newline>  main''"
    by code_simp
  have 2: "split_ws ''feature-x\<newline>  main'' = [''feature-x'', ''main'']"
    by code_simp
  have 3: "\<not> whole_token_of_listing ''feat'' ''feature-x\<newline>  main''"
    by code_simp
  have 4: "occurs_in_listing ''feat'' ''feature-x\<newline>  main''"
    by code_simp
  have 5: "inspect zoned_env zoned_self ''feat'' = Some zoned_feat"
    by code_simp
  have 6: "ahead_behind zoned_feat = Some (2, 5) \<and> is_merged zoned_feat"
    by code_simp
  have 7: "whole_token_of_listing ''feature-x'' ''feature-x\<newline>  main''"
    by code_simp
  have 8: "map_option is_merged (inspect zoned_env zoned_self ''feature-x'') = Some True"
    by code_simp
  show ?thesis
    using 1 2 3 4 5 6 7 8 by (simp only: simp_thms)
qed

subsection \<open>Commit dates with an offset\<close>

lemma aware_record_raises:
  "\<not> naive b \<Longrightarrow> fst (days_since_update e b w) = Inl TypeError"
  by (auto simp: days_since_update_def Let_def naive_def split: option.splits)

text \<open>
  Claim C3, at the commit date that git prints. The branch main of the repository
  \<open>offset_env\<close> has a record, its date carries the offset +02:00 and lies 45 days
  before the clock reading, and the threshold is 30 days. The age test raises TypeError:
  the analysis returns no classification, and the program prints the error and exits
  with status 1.
\<close>

theorem C3_offset_dates_raise:
  "map_option name (inspect offset_env sample_self ''main'') = Some ''main''
   \<and> map_option (utcoffset_us \<circ> last_commit_date) (inspect offset_env sample_self ''main'')
       = Some (Some 7200000000)
   \<and> map_option (age_at offset_env 0) (inspect offset_env sample_self ''main'') = Some 45
   \<and> stale_days sample_self = 30
   \<and> fst (categorize offset_env sample_self fresh) = Inl TypeError
   \<and> fst (analyze offset_env sample_self fresh) = Inl TypeError
   \<and> main offset_env text_args fresh =
       (Exit_1, \<lparr>err_stream = [Err_analysis TypeError], clock_reads = 1\<rparr>)"
  by code_simp

end
